theory Spec2Isabelle
  imports Main "HOL-Library.Word"
begin

section \<open>AirPodsDesktop: the advertisement core (Source/Core/AirPods.cpp)\<close>

text \<open>
  A shallow embedding of \<^verbatim>\<open>Source/Core/AirPods.cpp\<close>: the \<^verbatim>\<open>Advertisement\<close> decoder,
  the \<^verbatim>\<open>StateManager\<close> (plausibility filter, per-side caches, merge, resets) and the part
  of \<^verbatim>\<open>Manager\<close> that feeds it.

  Conventions.
  \<^item> Member names lose their leading underscore (\<^verbatim>\<open>_adv\<close> is \<open>adv\<close>), since an
    identifier cannot start with one here.
  \<^item> Every member function takes the object and returns the updated object; the mutex
    serialises the entry points, so one call is one step.
  \<^item> \<^verbatim>\<open>Clock::now()\<close> is an argument of the step that reads it.
  \<^item> Calls that leave the object (\<^verbatim>\<open>LOG\<close>, the main window, the media control) are
    returned as a list of effects, in call order. A \<^verbatim>\<open>LOG\<close> line is its level and a
    constructor for its format string; the formatted arguments are left out (among them
    \<^verbatim>\<open>GetDesensitizedData\<close>, which only feeds the trace line).
  \<^item> \<^verbatim>\<open>APD_ASSERT\<close> failing is the \<open>Inl\<close> of a sum.
\<close>

subsection \<open>Data\<close>

datatype Side = Left | Right

text \<open>
  Modelled from the spec: the enum \<^verbatim>\<open>Model\<close> is declared in a header that is not among
  the sources. The spec gives "model identifier (enum, includes an Unknown sentinel)"; the
  other enumerators are told apart by a number.
\<close>

datatype Model = Unknown | Model_Id nat

text \<open>
  Modelled from the spec: class \<^verbatim>\<open>Battery\<close> and \<^verbatim>\<open>Battery::ValueType\<close> are declared in a
  header that is not among the sources. The spec gives "battery: optional percentage in
  steps of 10", the raw unit being 0..10; the code uses \<^verbatim>\<open>Available()\<close> and \<^verbatim>\<open>Value()\<close>.
  The value is an unsigned number here; every value the decoder can store is at most 100,
  far from the bound of any machine type.
\<close>

type_synonym Battery = "nat option"

definition Available :: "Battery \<Rightarrow> bool" where
  "Available b = (b \<noteq> None)"

text \<open>\<^verbatim>\<open>Clock::now()\<close> readings; a default-constructed time point is the epoch.\<close>

type_synonym Timestamp = nat

text \<open>
  The address of a record is only compared for equality. Its type is declared in the
  Bluetooth header; the manager receives addresses as \<^verbatim>\<open>uint64_t\<close>.
\<close>

type_synonym AddressType = "64 word"

record 'a Sides =
  left :: 'a
  right :: 'a

record PodState =
  battery :: Battery
  isCharging :: bool
  isInEar :: bool

record CaseState =
  battery :: Battery
  isCharging :: bool
  isBothPodsInCase :: bool
  isLidOpened :: bool

record AdvState =
  model :: Model
  side :: Side
  pods :: "PodState Sides"
  caseBox :: CaseState

record State =
  model :: Model
  pods :: "PodState Sides"
  caseBox :: CaseState
  displayName :: string

text \<open>
  \<^verbatim>\<open>Bluetooth::AdvertisementWatcher::ReceivedData\<close>, with an \<^verbatim>\<open>int16_t\<close> RSSI and the
  manufacturer data keyed by the 16-bit company identifier.
\<close>

record ReceivedData =
  address :: AddressType
  rssi :: "16 word"
  timestamp :: Timestamp
  manufacturerDataMap :: "16 word \<Rightarrow> 8 word list option"

text \<open>
  What the accessors of the parsed \<^verbatim>\<open>AppleCP::AirPods\<close> structure return. The structure
  and its accessors are declared in \<^verbatim>\<open>AppleCP.h\<close>, which is not among the sources, so the
  decoder below takes their results as given: a battery accessor returns the raw 0..10
  reading, or nothing for the reserved "unavailable" reading.
\<close>

record AirPods_protocol =
  GetModel :: Model
  GetBroadcastedSide :: Side
  GetLeftBattery :: Battery
  IsLeftCharging :: bool
  IsLeftInEar :: bool
  GetRightBattery :: Battery
  IsRightCharging :: bool
  IsRightInEar :: bool
  GetCaseBattery :: Battery
  IsCaseCharging :: bool
  IsBothPodsInCase :: bool
  IsLidOpened :: bool

text \<open>
  The declarations the code uses from headers that are not among the sources, taken as
  parameters: the vendor identifier \<^verbatim>\<open>AppleCP::VendorId\<close>, the validity check
  \<^verbatim>\<open>AppleCP::AirPods::IsValid\<close>, the reinterpretation of valid bytes as the protocol
  structure, and \<^verbatim>\<open>Helper::ToString\<close> on models.
\<close>

record Externals =
  VendorId :: "16 word"
  IsValid :: "8 word list \<Rightarrow> bool"
  reinterpret :: "8 word list \<Rightarrow> AirPods_protocol"
  ToString :: "Model \<Rightarrow> string"

record Advertisement =
  data :: ReceivedData
  protocol :: AirPods_protocol
  state :: AdvState

datatype error =
    Assert_IsDesiredAdv
  | Assert_protocol_has_value
  | Assert_manufacturer_entry

subsection \<open>Advertisement\<close>

definition IsDesiredAdv :: "Externals \<Rightarrow> ReceivedData \<Rightarrow> bool" where
  "IsDesiredAdv ext d =
     (case manufacturerDataMap d (VendorId ext) of
        None \<Rightarrow> False
      | Some manufacturerData \<Rightarrow>
          if \<not> IsValid ext manufacturerData then False else True)"

definition GetMfrData :: "Externals \<Rightarrow> ReceivedData \<Rightarrow> error + 8 word list" where
  "GetMfrData ext d =
     (case manufacturerDataMap d (VendorId ext) of
        None \<Rightarrow> Inl Assert_manufacturer_entry
      | Some bytes \<Rightarrow> Inr bytes)"

text \<open>
  Modelled from the spec: the template \<^verbatim>\<open>AppleCP::As\<close> is declared in \<^verbatim>\<open>AppleCP.h\<close>, which
  is not among the sources. The spec has decoding fail only on "a payload that is not a
  recognized vendor packet" ("unrecognized payload passed to a decode-only function"),
  recognition being the fixed-layout validity check: so \<open>As\<close> has a value exactly on the
  bytes that pass \<^verbatim>\<open>IsValid\<close>.
\<close>

definition As :: "Externals \<Rightarrow> 8 word list \<Rightarrow> AirPods_protocol option" where
  "As ext bytes = (if IsValid ext bytes then Some (reinterpret ext bytes) else None)"

text \<open>Lines 72 to 87 of the constructor: the accessors' results, field by field.\<close>

definition store_state :: "AirPods_protocol \<Rightarrow> AdvState" where
  "store_state p =
     \<lparr> AdvState.model = GetModel p,
       side = GetBroadcastedSide p,
       AdvState.pods =
         \<lparr> left = \<lparr> PodState.battery = GetLeftBattery p,
                    PodState.isCharging = IsLeftCharging p,
                    isInEar = IsLeftInEar p \<rparr>,
           right = \<lparr> PodState.battery = GetRightBattery p,
                     PodState.isCharging = IsRightCharging p,
                     isInEar = IsRightInEar p \<rparr> \<rparr>,
       AdvState.caseBox =
         \<lparr> CaseState.battery = GetCaseBattery p,
           CaseState.isCharging = IsCaseCharging p,
           isBothPodsInCase = IsBothPodsInCase p,
           isLidOpened = IsLidOpened p \<rparr> \<rparr>"

text \<open>One of the three guarded assignments of lines 89 to 97.\<close>

definition times_10 :: "Battery \<Rightarrow> Battery" where
  "times_10 b = (if Available b then Some (the b * 10) else b)"

definition scale_batteries :: "AdvState \<Rightarrow> AdvState" where
  "scale_batteries s =
     (let l = left (AdvState.pods s);
          l = l\<lparr> PodState.battery := times_10 (PodState.battery l) \<rparr>;
          r = right (AdvState.pods s);
          r = r\<lparr> PodState.battery := times_10 (PodState.battery r) \<rparr>;
          c = AdvState.caseBox s;
          c = c\<lparr> CaseState.battery := times_10 (CaseState.battery c) \<rparr>
      in s\<lparr> AdvState.pods := \<lparr> left = l, right = r \<rparr>, AdvState.caseBox := c \<rparr>)"

definition Advertisement_ctor :: "Externals \<Rightarrow> ReceivedData \<Rightarrow> error + Advertisement" where
  "Advertisement_ctor ext d =
     (if \<not> IsDesiredAdv ext d then Inl Assert_IsDesiredAdv
      else case GetMfrData ext d of
             Inl e \<Rightarrow> Inl e
           | Inr bytes \<Rightarrow>
               (case As ext bytes of
                  None \<Rightarrow> Inl Assert_protocol_has_value
                | Some p \<Rightarrow>
                    Inr \<lparr> data = d, protocol = p,
                          state = scale_batteries (store_state p) \<rparr>))"

definition GetRssi :: "Advertisement \<Rightarrow> 16 word" where
  "GetRssi a = rssi (data a)"

definition GetTimestamp :: "Advertisement \<Rightarrow> Timestamp" where
  "GetTimestamp a = timestamp (data a)"

definition GetAddress :: "Advertisement \<Rightarrow> AddressType" where
  "GetAddress a = address (data a)"

definition GetAdvState :: "Advertisement \<Rightarrow> AdvState" where
  "GetAdvState a = state a"

subsection \<open>StateManager: data\<close>

text \<open>
  Modelled from the spec: class \<^verbatim>\<open>Timer\<close> is declared in a header that is not among the
  sources. The spec describes "a reset-on-activity pattern (each relevant event restarts
  the timer's countdown)"; a timer is represented by the number of times \<^verbatim>\<open>Reset()\<close> has
  restarted its countdown. Its firing is an input of the state machine below.
\<close>

record Timer =
  restarts :: nat

definition Reset :: "Timer \<Rightarrow> Timer" where
  "Reset t = t\<lparr> restarts := Suc (restarts t) \<rparr>"

record StateManager =
  adv :: "(Advertisement \<times> Timestamp) option Sides"
  cachedState :: "State option"
  rssiMin :: "16 word"
  lostTimer :: Timer
  stateResetTimer :: "Timer Sides"

record UpdateEvent =
  oldState :: "State option"
  newState :: State

datatype Level = Trace | Info | Warn

text \<open>The \<^verbatim>\<open>LOG\<close> lines of the file, one constructor for each format string.\<close>

datatype Message =
    Rssi_is_less_than_the_limit
  | Reason_model
  | Reason_BatteryDiff
  | Reason_current_side_rssiDiff
  | Address_changed_but_might_be_same_device
  | Reason_another_side_rssiDiff
  | This_adv_may_not_be_from_the_device_we_desire
  | StateManager_Disconnect
  | Device_is_lost
  | DoStateReset_called Side
  | Advertisement_received
  | Advertisement_received_but_device_disconnected
  | Automatic_ear_detection_disabled

datatype Effect =
    LOG Level Message
  | DisconnectSafely
  | UpdateStateSafely State
  | ShowSafely
  | HideSafely
  | Play
  | Pause

text \<open>
  Modelled from the spec: the default member initialisers of \<^verbatim>\<open>AdvState\<close>, \<^verbatim>\<open>State\<close>,
  \<^verbatim>\<open>PodState\<close> and \<^verbatim>\<open>CaseState\<close> are in a header that is not among the sources. The spec
  has a field group with no source stay "unavailable", that is model \<open>Unknown\<close> and no
  battery; the flags start false and the display name empty. The merge never reads the
  \<open>side\<close> of a default-constructed \<^verbatim>\<open>AdvState\<close>.
\<close>

definition default_PodState :: PodState where
  "default_PodState =
     \<lparr> PodState.battery = None, PodState.isCharging = False, isInEar = False \<rparr>"

definition default_CaseState :: CaseState where
  "default_CaseState =
     \<lparr> CaseState.battery = None, CaseState.isCharging = False,
       isBothPodsInCase = False, isLidOpened = False \<rparr>"

definition default_AdvState :: AdvState where
  "default_AdvState =
     \<lparr> AdvState.model = Unknown, side = Left,
       AdvState.pods = \<lparr> left = default_PodState, right = default_PodState \<rparr>,
       AdvState.caseBox = default_CaseState \<rparr>"

text \<open>
  The constructor starts the three timers; the initial value of \<^verbatim>\<open>_rssiMin\<close> is in the
  header, so it is an argument here.
\<close>

definition StateManager_ctor :: "16 word \<Rightarrow> StateManager" where
  "StateManager_ctor r =
     \<lparr> adv = \<lparr> left = None, right = None \<rparr>,
       cachedState = None,
       rssiMin = r,
       lostTimer = \<lparr> restarts = 0 \<rparr>,
       stateResetTimer = \<lparr> left = \<lparr> restarts = 0 \<rparr>, right = \<lparr> restarts = 0 \<rparr> \<rparr> \<rparr>"

definition GetCurrentState :: "StateManager \<Rightarrow> State option" where
  "GetCurrentState sm = cachedState sm"

subsection \<open>StateManager: the plausibility filter\<close>

text \<open>
  \<^verbatim>\<open>int16_t rssiDiff = std::abs(advRssi - last.GetRssi())\<close>: the operands are promoted to
  \<^verbatim>\<open>int\<close>, so the difference and its absolute value are exact; storing it in an
  \<^verbatim>\<open>int16_t\<close> keeps the low 16 bits. It is read as a signed value by the comparison.
\<close>

definition rssiDiff :: "16 word \<Rightarrow> 16 word \<Rightarrow> 16 word" where
  "rssiDiff a b = word_of_int \<bar>sint a - sint b\<bar>"

text \<open>
  One of the three battery differences: 0 unless both packets report the battery, else
  the absolute difference of the two stored values, taken on their signed casts.
\<close>

definition batteryDiff :: "Battery \<Rightarrow> Battery \<Rightarrow> nat" where
  "batteryDiff new old =
     (if Available new \<and> Available old then nat \<bar>int (the new) - int (the old)\<bar> else 0)"

text \<open>
  The body of the address-change block (lines 212 to 258), for the cached same-side
  advertisement \<open>l\<close> and the incoming one \<open>a\<close>: whether it lets the packet through, and
  what it logs.
\<close>

definition address_changed_block :: "Advertisement \<Rightarrow> Advertisement \<Rightarrow> bool \<times> Effect list" where
  "address_changed_block l a =
     (let advState = GetAdvState a;
          lastAdvState = GetAdvState l
      in if AdvState.model advState \<noteq> AdvState.model lastAdvState
         then (False, [LOG Warn Reason_model])
         else
           let leftBatteryDiff =
                 batteryDiff (PodState.battery (left (AdvState.pods advState)))
                             (PodState.battery (left (AdvState.pods lastAdvState)));
               rightBatteryDiff =
                 batteryDiff (PodState.battery (right (AdvState.pods advState)))
                             (PodState.battery (right (AdvState.pods lastAdvState)));
               caseBatteryDiff =
                 batteryDiff (CaseState.battery (AdvState.caseBox advState))
                             (CaseState.battery (AdvState.caseBox lastAdvState))
           in if leftBatteryDiff > 1 \<or> rightBatteryDiff > 1 \<or> caseBatteryDiff > 1
              then (False, [LOG Warn Reason_BatteryDiff])
              else if 50 < sint (rssiDiff (GetRssi a) (GetRssi l))
              then (False, [LOG Warn Reason_current_side_rssiDiff])
              else (True, [LOG Warn Address_changed_but_might_be_same_device]))"

definition IsPossibleDesiredAdv_log :: "StateManager \<Rightarrow> Advertisement \<Rightarrow> bool \<times> Effect list" where
  "IsPossibleDesiredAdv_log sm a =
     (let advRssi = GetRssi a
      in if sint advRssi < sint (rssiMin sm)
         then (False, [LOG Warn Rssi_is_less_than_the_limit])
         else
           let advState = GetAdvState a;
               lastAdv = (if side advState = Left then left (adv sm) else right (adv sm));
               lastAnotherAdv = (if side advState = Left then right (adv sm) else left (adv sm));
               same = (case lastAdv of
                         None \<Rightarrow> (True, [])
                       | Some (l, t) \<Rightarrow>
                           if GetAddress l \<noteq> GetAddress a then address_changed_block l a
                           else (True, []))
           in if \<not> fst same then same
              else case lastAnotherAdv of
                     None \<Rightarrow> (True, snd same)
                   | Some (l, t) \<Rightarrow>
                       if 50 < sint (rssiDiff advRssi (GetRssi l))
                       then (False, snd same @ [LOG Warn Reason_another_side_rssiDiff])
                       else (True, snd same))"

definition IsPossibleDesiredAdv :: "StateManager \<Rightarrow> Advertisement \<Rightarrow> bool" where
  "IsPossibleDesiredAdv sm a = fst (IsPossibleDesiredAdv_log sm a)"

subsection \<open>StateManager: caches and merge\<close>

definition UpdateAdv :: "Advertisement \<Rightarrow> Timestamp \<Rightarrow> StateManager \<Rightarrow> StateManager" where
  "UpdateAdv a now sm =
     (let sm = sm\<lparr> lostTimer := Reset (lostTimer sm) \<rparr>;
          advState = GetAdvState a
      in if side advState = Left
         then sm\<lparr> stateResetTimer :=
                    (stateResetTimer sm)\<lparr> left := Reset (left (stateResetTimer sm)) \<rparr>,
                  adv := (adv sm)\<lparr> left := Some (a, now) \<rparr> \<rparr>
         else if side advState = Right
         then sm\<lparr> stateResetTimer :=
                    (stateResetTimer sm)\<lparr> right := Reset (right (stateResetTimer sm)) \<rparr>,
                  adv := (adv sm)\<lparr> right := Some (a, now) \<rparr> \<rparr>
         else sm)"

text \<open>
  The local \<^verbatim>\<open>cachedAdvState\<close> of \<^verbatim>\<open>UpdateState\<close>: default-constructed pairs, overwritten
  for the sides that are cached.
\<close>

definition cachedAdvState :: "StateManager \<Rightarrow> (AdvState \<times> Timestamp) Sides" where
  "cachedAdvState sm =
     \<lparr> left = (case left (adv sm) of
                 None \<Rightarrow> (default_AdvState, 0)
               | Some (a, t) \<Rightarrow> (GetAdvState a, t)),
       right = (case right (adv sm) of
                  None \<Rightarrow> (default_AdvState, 0)
                | Some (a, t) \<Rightarrow> (GetAdvState a, t)) \<rparr>"

text \<open>The macro \<^verbatim>\<open>PICK_SIDE\<close>, its argument being the availability condition.\<close>

definition PICK_SIDE :: "(AdvState \<Rightarrow> bool) \<Rightarrow> (AdvState \<times> Timestamp) Sides \<Rightarrow> AdvState" where
  "PICK_SIDE available_condition c =
     (let available = \<lparr> left = available_condition (fst (left c)),
                        right = available_condition (fst (right c)) \<rparr>
      in if left available \<and> right available
         then (if snd (left c) > snd (right c) then fst (left c) else fst (right c))
         else (if left available then fst (left c) else fst (right c)))"

text \<open>The \<^verbatim>\<open>newState\<close> that \<^verbatim>\<open>UpdateState\<close> builds from the two caches.\<close>

definition merged :: "(AdvState \<times> Timestamp) Sides \<Rightarrow> State" where
  "merged c =
     \<lparr> State.model = AdvState.model (PICK_SIDE (\<lambda>s. AdvState.model s \<noteq> Unknown) c),
       State.pods =
         \<lparr> left = left (AdvState.pods
                    (PICK_SIDE (\<lambda>s. Available (PodState.battery (left (AdvState.pods s)))) c)),
           right = right (AdvState.pods
                    (PICK_SIDE (\<lambda>s. Available (PodState.battery (right (AdvState.pods s)))) c)) \<rparr>,
       State.caseBox = AdvState.caseBox
                    (PICK_SIDE (\<lambda>s. Available (CaseState.battery (AdvState.caseBox s))) c),
       displayName = [] \<rparr>"

text \<open>
  \<^verbatim>\<open>newState == _cachedState\<close> compares a \<^verbatim>\<open>State\<close> with an optional one: equal when the
  optional holds an equal state. The spec has equality of states structural.
\<close>

definition UpdateState :: "StateManager \<Rightarrow> UpdateEvent option \<times> StateManager" where
  "UpdateState sm =
     (let newState = merged (cachedAdvState sm)
      in if Some newState = cachedState sm then (None, sm)
         else
           let oldState = cachedState sm;
               sm = sm\<lparr> cachedState := Some newState \<rparr>
           in (Some \<lparr> oldState = oldState, newState = the (cachedState sm) \<rparr>, sm))"

definition OnAdvReceived ::
  "Advertisement \<Rightarrow> Timestamp \<Rightarrow> StateManager \<Rightarrow> UpdateEvent option \<times> Effect list \<times> StateManager" where
  "OnAdvReceived a now sm =
     (let (possible, logged) = IsPossibleDesiredAdv_log sm a
      in if \<not> possible
         then (None, logged @ [LOG Warn This_adv_may_not_be_from_the_device_we_desire], sm)
         else
           let sm = UpdateAdv a now sm;
               (event, sm) = UpdateState sm
           in (event, logged, sm))"

subsection \<open>StateManager: resets\<close>

definition ResetAll :: "StateManager \<Rightarrow> Effect list \<times> StateManager" where
  "ResetAll sm =
     ((if cachedState sm \<noteq> None then [DisconnectSafely] else []),
      sm\<lparr> adv := \<lparr> left = None, right = None \<rparr>, cachedState := None \<rparr>)"

definition DoLost :: "StateManager \<Rightarrow> Effect list \<times> StateManager" where
  "DoLost sm =
     (let logged = (if cachedState sm \<noteq> None then [LOG Info Device_is_lost] else []);
          (notified, sm) = ResetAll sm
      in (logged @ notified, sm))"

definition DoStateReset :: "Side \<Rightarrow> StateManager \<Rightarrow> Effect list \<times> StateManager" where
  "DoStateReset s sm =
     (if s = Left
      then (if left (adv sm) \<noteq> None
            then ([LOG Info (DoStateReset_called s)], sm\<lparr> adv := (adv sm)\<lparr> left := None \<rparr> \<rparr>)
            else ([], sm))
      else (if right (adv sm) \<noteq> None
            then ([LOG Info (DoStateReset_called s)], sm\<lparr> adv := (adv sm)\<lparr> right := None \<rparr> \<rparr>)
            else ([], sm)))"

definition Disconnect :: "StateManager \<Rightarrow> Effect list \<times> StateManager" where
  "Disconnect sm =
     (let (notified, sm) = ResetAll sm
      in (LOG Info StateManager_Disconnect # notified, sm))"

definition OnRssiMinChanged :: "16 word \<Rightarrow> StateManager \<Rightarrow> StateManager" where
  "OnRssiMinChanged r sm = sm\<lparr> rssiMin := r \<rparr>"

text \<open>
  The entry points that run under the mutex, as one step function. An \<^verbatim>\<open>UpdateEvent\<close>
  is the return value of \<^verbatim>\<open>OnAdvReceived\<close>; the three timer callbacks (lines 143 to 156)
  call \<^verbatim>\<open>DoLost\<close> and \<^verbatim>\<open>DoStateReset\<close>, which return nothing.
\<close>

datatype Input =
    AdvReceived Advertisement Timestamp
  | LostTimer_fired
  | StateResetTimer_fired Side

fun StateManager_step ::
  "Input \<Rightarrow> StateManager \<Rightarrow> UpdateEvent option \<times> Effect list \<times> StateManager" where
  "StateManager_step (AdvReceived a now) sm = OnAdvReceived a now sm"
| "StateManager_step LostTimer_fired sm = (None, DoLost sm)"
| "StateManager_step (StateResetTimer_fired s) sm = (None, DoStateReset s sm)"

subsection \<open>Manager\<close>

text \<open>
  \<^verbatim>\<open>QString::remove(str)\<close> removes every occurrence of \<open>str\<close>, scanning from the left.
  The counter is the number of characters of the current occurrence still to drop.
\<close>

fun remove_from :: "string \<Rightarrow> nat \<Rightarrow> string \<Rightarrow> string" where
  "remove_from str k [] = []"
| "remove_from str (Suc k) (c # cs) = remove_from str k cs"
| "remove_from str 0 (c # cs) =
     (if str \<noteq> [] \<and> take (length str) (c # cs) = str
      then remove_from str (length str - 1) cs
      else c # remove_from str 0 cs)"

definition QString_remove :: "string \<Rightarrow> string \<Rightarrow> string" where
  "QString_remove s str = remove_from str 0 s"

text \<open>
  The members the functions below touch. The bound device and the advertisement watcher
  are handles to the Bluetooth layer.
\<close>

record Manager =
  stateMgr :: StateManager
  deviceName :: string
  deviceConnected :: bool
  automaticEarDetection :: bool

definition OnLidOpened :: "bool \<Rightarrow> Effect list" where
  "OnLidOpened opened = (if opened then [ShowSafely] else [HideSafely])"

definition OnBothInEar :: "Manager \<Rightarrow> bool \<Rightarrow> Effect list" where
  "OnBothInEar m isBothInEar =
     (if \<not> automaticEarDetection m then [LOG Info Automatic_ear_detection_disabled]
      else if isBothInEar then [Play] else [Pause])"

definition OnStateChanged :: "Externals \<Rightarrow> UpdateEvent \<Rightarrow> Manager \<Rightarrow> Effect list \<times> Manager" where
  "OnStateChanged ext updateEvent m =
     (let oldState = oldState updateEvent;
          newState = newState updateEvent;
          (name, m) =
            (if deviceName m = [] then (ToString ext (State.model newState), m)
             else let removed = QString_remove (deviceName m) '' - Find My''
                  in (removed, m\<lparr> deviceName := removed \<rparr>));
          newState = newState\<lparr> displayName := name \<rparr>;
          shown = [UpdateStateSafely newState];
          newLidOpened = (isLidOpened (State.caseBox newState)
                          \<and> isBothPodsInCase (State.caseBox newState));
          lidStateSwitched =
            (case oldState of
               None \<Rightarrow> newLidOpened
             | Some old \<Rightarrow>
                 (isLidOpened (State.caseBox old) \<and> isBothPodsInCase (State.caseBox old))
                   \<noteq> newLidOpened);
          lid = (if lidStateSwitched then OnLidOpened newLidOpened else []);
          ear = (case oldState of
                   None \<Rightarrow> []
                 | Some old \<Rightarrow>
                     let oldBothInEar = (isInEar (left (State.pods old))
                                          \<and> isInEar (right (State.pods old)));
                         newBothInEar = (isInEar (left (State.pods newState))
                                          \<and> isInEar (right (State.pods newState)))
                     in if oldBothInEar \<noteq> newBothInEar then OnBothInEar m newBothInEar else [])
      in (shown @ lid @ ear, m))"

text \<open>
  \<^verbatim>\<open>OnAdvertisementReceived\<close> constructs an \<^verbatim>\<open>Advertisement\<close> twice from the same record:
  once for the trace line, once as the argument of \<^verbatim>\<open>OnAdvReceived\<close>.
\<close>

definition OnAdvertisementReceived ::
  "Externals \<Rightarrow> ReceivedData \<Rightarrow> Timestamp \<Rightarrow> Manager \<Rightarrow> error + (bool \<times> Effect list \<times> Manager)" where
  "OnAdvertisementReceived ext d now m =
     (if \<not> IsDesiredAdv ext d then Inr (False, [], m)
      else case Advertisement_ctor ext d of
             Inl e \<Rightarrow> Inl e
           | Inr traced \<Rightarrow>
               if \<not> deviceConnected m
               then Inr (False,
                         [LOG Trace Advertisement_received,
                          LOG Info Advertisement_received_but_device_disconnected], m)
               else case Advertisement_ctor ext d of
                      Inl e \<Rightarrow> Inl e
                    | Inr a \<Rightarrow>
                        let (optUpdateEvent, logged, sm) = OnAdvReceived a now (stateMgr m);
                            m = m\<lparr> stateMgr := sm \<rparr>;
                            (notified, m) =
                              (case optUpdateEvent of
                                 None \<Rightarrow> ([], m)
                               | Some updateEvent \<Rightarrow> OnStateChanged ext updateEvent m)
                        in Inr (True, LOG Trace Advertisement_received # logged @ notified, m))"

subsection \<open>Runs of the state machine\<close>

text \<open>A sequence of inputs, with the events and effects it produces, in order.\<close>

fun run :: "Input list \<Rightarrow> StateManager \<Rightarrow> UpdateEvent list \<times> Effect list \<times> StateManager" where
  "run [] sm = ([], [], sm)"
| "run (i # inputs) sm =
     (let (event, effects, sm) = StateManager_step i sm;
          (events, effects', sm) = run inputs sm
      in ((case event of None \<Rightarrow> [] | Some e \<Rightarrow> [e]) @ events, effects @ effects', sm))"

text \<open>No advertisement of the sequence is accepted by the filter at the time it arrives.\<close>

fun none_accepted :: "Input list \<Rightarrow> StateManager \<Rightarrow> bool" where
  "none_accepted [] sm = True"
| "none_accepted (i # inputs) sm =
     ((case i of AdvReceived a now \<Rightarrow> \<not> IsPossibleDesiredAdv sm a | _ \<Rightarrow> True)
      \<and> none_accepted inputs (snd (snd (StateManager_step i sm))))"

subsection \<open>Notions of the specification\<close>

text \<open>
  The specification's merge rule for one field group, in its own words: \<open>uL\<close> and \<open>uR\<close>
  say whether the left and the right cache carry a usable value for the group, \<open>tL\<close> and
  \<open>tR\<close> are the receipt timestamps, \<open>gL\<close> and \<open>gR\<close> the group in each snapshot, \<open>g\<close>
  the group in the merged state and \<open>unavailable\<close> whether that one is unavailable.
\<close>

definition spec_group_rule ::
  "bool \<Rightarrow> bool \<Rightarrow> Timestamp \<Rightarrow> Timestamp \<Rightarrow> 'g \<Rightarrow> 'g \<Rightarrow> 'g \<Rightarrow> bool \<Rightarrow> bool" where
  "spec_group_rule uL uR tL tR gL gR g unavailable =
     ((uL \<and> uR \<and> tL > tR \<longrightarrow> g = gL)
      \<and> (uL \<and> uR \<and> tR > tL \<longrightarrow> g = gR)
      \<and> (uL \<and> \<not> uR \<longrightarrow> g = gL)
      \<and> (\<not> uL \<and> uR \<longrightarrow> g = gR)
      \<and> (\<not> uL \<and> \<not> uR \<longrightarrow> unavailable))"

text \<open>
  The receipt time \<open>t2\<close> of a repeated advertisement stands to the other side's cached
  receipt time as the first receipt time \<open>t1\<close> did. It does whenever the other side is
  not cached, or was cached strictly before \<open>t1\<close> and the clock has not gone back.
\<close>

definition same_order :: "StateManager \<Rightarrow> Advertisement \<Rightarrow> Timestamp \<Rightarrow> Timestamp \<Rightarrow> bool" where
  "same_order sm a t1 t2 =
     (if side (GetAdvState a) = Left
      then (case right (adv sm) of None \<Rightarrow> True | Some (r, t) \<Rightarrow> (t1 > t) = (t2 > t))
      else (case left (adv sm) of None \<Rightarrow> True | Some (l, t) \<Rightarrow> (t > t1) = (t > t2)))"

subsection \<open>Sample inputs\<close>

text \<open>
  An instance of the external declarations, to evaluate the theorems at concrete inputs:
  a made-up five-byte payload (side, model, left, right and case battery, a battery
  above 10 being the unavailable reading), all flags false. No theorem depends on it
  beyond its own evaluation.
\<close>

definition sample_battery :: "8 word \<Rightarrow> Battery" where
  "sample_battery b = (if unat b \<le> 10 then Some (unat b) else None)"

definition sample_protocol :: "8 word \<Rightarrow> 8 word \<Rightarrow> 8 word \<Rightarrow> 8 word \<Rightarrow> 8 word \<Rightarrow> AirPods_protocol" where
  "sample_protocol s m l r c =
     \<lparr> GetModel = (if m = 0 then Unknown else Model_Id (unat m)),
       GetBroadcastedSide = (if s = 0 then Left else Right),
       GetLeftBattery = sample_battery l, IsLeftCharging = False, IsLeftInEar = False,
       GetRightBattery = sample_battery r, IsRightCharging = False, IsRightInEar = False,
       GetCaseBattery = sample_battery c, IsCaseCharging = False,
       IsBothPodsInCase = False, IsLidOpened = False \<rparr>"

fun sample_reinterpret :: "8 word list \<Rightarrow> AirPods_protocol" where
  "sample_reinterpret [s, m, l, r, c] = sample_protocol s m l r c"
| "sample_reinterpret bytes = sample_protocol 0 0 15 15 15"

definition sample_ext :: Externals where
  "sample_ext =
     \<lparr> VendorId = 76, IsValid = (\<lambda>bytes. length bytes = 5),
       reinterpret = sample_reinterpret, ToString = (\<lambda>m. ''AirPods'') \<rparr>"

definition sample_data :: "AddressType \<Rightarrow> 16 word \<Rightarrow> 8 word list \<Rightarrow> ReceivedData" where
  "sample_data addr r bytes =
     \<lparr> address = addr, rssi = r, timestamp = 0,
       manufacturerDataMap = (\<lambda>vendor. if vendor = 76 then Some bytes else None) \<rparr>"

text \<open>The advertisement the constructor builds from such a record.\<close>

definition sample_adv :: "AddressType \<Rightarrow> 16 word \<Rightarrow> 8 word list \<Rightarrow> Advertisement" where
  "sample_adv addr r bytes =
     \<lparr> data = sample_data addr r bytes, protocol = sample_reinterpret bytes,
       state = scale_batteries (store_state (sample_reinterpret bytes)) \<rparr>"

definition sample_manager :: "bool \<Rightarrow> Manager" where
  "sample_manager connected =
     \<lparr> stateMgr = StateManager_ctor (- 100), deviceName = [],
       deviceConnected = connected, automaticEarDetection = True \<rparr>"

text \<open>The state machine after the given inputs, from construction with floor -100.\<close>

definition after :: "Input list \<Rightarrow> StateManager" where
  "after inputs = snd (snd (run inputs (StateManager_ctor (- 100))))"

text \<open>
  Named samples. Payload bytes are side, model, left, right, case; floor is -100.
  \<open>adv_L1\<close>: left bud, address 1, RSSI -40, batteries 70, 50 and none.
  \<open>adv_R1\<close>: right bud, address 3, RSSI -80, the same batteries.
\<close>

definition data_L1 :: ReceivedData where
  "data_L1 = sample_data 1 (- 40) [0, 1, 7, 5, 15]"

definition adv_L1 :: Advertisement where
  "adv_L1 = sample_adv 1 (- 40) [0, 1, 7, 5, 15]"

definition adv_R1 :: Advertisement where
  "adv_R1 = sample_adv 3 (- 80) [1, 1, 7, 5, 15]"

text \<open>Left bud under a new address, same model and batteries as \<open>adv_L1\<close>, RSSI -60.\<close>

definition adv_L1_rotated :: Advertisement where
  "adv_L1_rotated = sample_adv 2 (- 60) [0, 1, 7, 5, 15]"

text \<open>The same, with RSSI -20: 20 from \<open>adv_L1\<close>, 60 from \<open>adv_R1\<close>.\<close>

definition adv_L1_near :: Advertisement where
  "adv_L1_near = sample_adv 2 (- 20) [0, 1, 7, 5, 15]"

text \<open>Left bud under a new address, left battery one step down (60), RSSI as \<open>adv_L1\<close>.\<close>

definition adv_L1_step :: Advertisement where
  "adv_L1_step = sample_adv 2 (- 40) [0, 1, 6, 5, 15]"

text \<open>Left bud under a new address, another model.\<close>

definition adv_L1_other_model :: Advertisement where
  "adv_L1_other_model = sample_adv 2 (- 40) [0, 2, 7, 5, 15]"

definition sm_left :: StateManager where
  "sm_left = after [AdvReceived adv_L1 1]"

definition sm_both :: StateManager where
  "sm_both = after [AdvReceived adv_L1 1, AdvReceived adv_R1 2]"

text \<open>
  \<open>adv_R2\<close>: right bud, model 1, left battery 50. \<open>adv_L2\<close>: left bud, model 1, left
  battery 60. Cached in this order, at times 2 and 3.
\<close>

definition adv_R2 :: Advertisement where
  "adv_R2 = sample_adv 3 (- 50) [1, 1, 5, 5, 15]"

definition adv_L2 :: Advertisement where
  "adv_L2 = sample_adv 1 (- 50) [0, 1, 6, 5, 15]"

definition sm_fresh_left :: StateManager where
  "sm_fresh_left = after [AdvReceived adv_R2 2, AdvReceived adv_L2 3]"

text \<open>
  \<open>adv_L4\<close>: left bud, model 1, no left battery, right battery 50, at time 1.
  \<open>adv_R4\<close>: right bud, model 2, left battery 40, right battery 50, at time 2.
\<close>

definition adv_L4 :: Advertisement where
  "adv_L4 = sample_adv 1 (- 50) [0, 1, 15, 5, 15]"

definition adv_R4 :: Advertisement where
  "adv_R4 = sample_adv 3 (- 50) [1, 2, 4, 5, 15]"

definition sm_fresh_right :: StateManager where
  "sm_fresh_right = after [AdvReceived adv_L4 1, AdvReceived adv_R4 2]"

text \<open>
  \<open>adv_R5\<close>: right bud, no left battery, right battery 50. \<open>adv_L5\<close>: left bud, left
  battery 60, right battery 40. The right one is cached at time 5.
\<close>

definition adv_R5 :: Advertisement where
  "adv_R5 = sample_adv 3 (- 50) [1, 1, 15, 5, 15]"

definition adv_L5 :: Advertisement where
  "adv_L5 = sample_adv 1 (- 50) [0, 1, 6, 4, 15]"

definition sm_right_at_5 :: StateManager where
  "sm_right_at_5 = after [AdvReceived adv_R5 5]"

definition sm_tie :: StateManager where
  "sm_tie = after [AdvReceived adv_R5 5, AdvReceived adv_L5 5]"

section \<open>Properties\<close>

subsection \<open>Evaluation of the samples\<close>

lemmas sample_defs =
  sample_adv_def sample_data_def sample_protocol_def sample_battery_def sample_ext_def
  sample_manager_def data_L1_def adv_L1_def adv_R1_def adv_L1_rotated_def adv_L1_near_def
  adv_L1_step_def adv_L1_other_model_def adv_R2_def adv_L2_def adv_L4_def adv_R4_def
  adv_R5_def adv_L5_def sm_left_def sm_both_def sm_fresh_left_def sm_fresh_right_def
  sm_right_at_5_def sm_tie_def after_def

lemmas decoder_defs =
  Advertisement_ctor_def IsDesiredAdv_def GetMfrData_def As_def scale_batteries_def
  store_state_def times_10_def Available_def GetRssi_def GetAdvState_def GetAddress_def

lemmas machine_defs =
  StateManager_ctor_def OnAdvReceived_def IsPossibleDesiredAdv_def
  IsPossibleDesiredAdv_log_def address_changed_block_def rssiDiff_def batteryDiff_def
  UpdateAdv_def UpdateState_def cachedAdvState_def merged_def PICK_SIDE_def Reset_def
  default_AdvState_def default_PodState_def default_CaseState_def
  DoLost_def DoStateReset_def ResetAll_def Let_def

text \<open>The sample advertisements are what the constructor builds from the sample records.\<close>

lemma sample_adv_constructed:
  assumes "length bytes = 5"
  shows "Advertisement_ctor sample_ext (sample_data addr r bytes) = Inr (sample_adv addr r bytes)"
  using assms
  by (simp add: Advertisement_ctor_def IsDesiredAdv_def GetMfrData_def As_def
        sample_ext_def sample_data_def sample_adv_def)

subsection \<open>The decoder\<close>

lemma ctor_recognized:
  assumes "IsDesiredAdv ext d"
  shows "\<exists>bytes. manufacturerDataMap d (VendorId ext) = Some bytes \<and> IsValid ext bytes
           \<and> GetMfrData ext d = Inr bytes \<and> As ext bytes = Some (reinterpret ext bytes)
           \<and> Advertisement_ctor ext d =
               Inr \<lparr> data = d, protocol = reinterpret ext bytes,
                     state = scale_batteries (store_state (reinterpret ext bytes)) \<rparr>"
  using assms
  by (auto simp: Advertisement_ctor_def IsDesiredAdv_def GetMfrData_def As_def
           split: option.splits if_splits sum.splits)

lemma times_10_Some: "times_10 (Some v) = Some (v * 10)"
  by (simp add: times_10_def Available_def)

lemma times_10_None: "times_10 None = None"
  by (simp add: times_10_def Available_def)

lemma scaled_left:
  "PodState.battery (left (AdvState.pods (scale_batteries (store_state p))))
     = times_10 (GetLeftBattery p)"
  by (simp add: scale_batteries_def store_state_def Let_def)

lemma scaled_right:
  "PodState.battery (right (AdvState.pods (scale_batteries (store_state p))))
     = times_10 (GetRightBattery p)"
  by (simp add: scale_batteries_def store_state_def Let_def)

lemma scaled_case:
  "CaseState.battery (AdvState.caseBox (scale_batteries (store_state p)))
     = times_10 (GetCaseBattery p)"
  by (simp add: scale_batteries_def store_state_def Let_def)

text \<open>
  Claim C6. A record that \<^verbatim>\<open>IsDesiredAdv\<close> admits is decoded, and every advertisement
  the constructor builds from a record holds that record and the structure read from the
  record's own vendor bytes; each of its three battery fields whose sub-field of those
  bytes reads a raw value \<open>v\<close> in 0..10 is stored as \<open>v * 10\<close> (raw 7 is stored as 70),
  and a field whose sub-field reads as unavailable is stored as absent, not scaled.
\<close>

theorem battery_scaling:
  "(IsDesiredAdv ext d \<longrightarrow> (\<exists>a'. Advertisement_ctor ext d = Inr a'))
   \<and> (Advertisement_ctor ext d = Inr a \<longrightarrow>
        (\<exists>bytes.
           manufacturerDataMap d (VendorId ext) = Some bytes \<and> IsValid ext bytes
           \<and> data a = d \<and> protocol a = reinterpret ext bytes
           \<and> (\<forall>v. GetLeftBattery (reinterpret ext bytes) = Some v \<longrightarrow> v \<le> 10 \<longrightarrow>
                 PodState.battery (left (AdvState.pods (GetAdvState a))) = Some (v * 10))
           \<and> (GetLeftBattery (reinterpret ext bytes) = None \<longrightarrow>
                 PodState.battery (left (AdvState.pods (GetAdvState a))) = None)
           \<and> (\<forall>v. GetRightBattery (reinterpret ext bytes) = Some v \<longrightarrow> v \<le> 10 \<longrightarrow>
                 PodState.battery (right (AdvState.pods (GetAdvState a))) = Some (v * 10))
           \<and> (GetRightBattery (reinterpret ext bytes) = None \<longrightarrow>
                 PodState.battery (right (AdvState.pods (GetAdvState a))) = None)
           \<and> (\<forall>v. GetCaseBattery (reinterpret ext bytes) = Some v \<longrightarrow> v \<le> 10 \<longrightarrow>
                 CaseState.battery (AdvState.caseBox (GetAdvState a)) = Some (v * 10))
           \<and> (GetCaseBattery (reinterpret ext bytes) = None \<longrightarrow>
                 CaseState.battery (AdvState.caseBox (GetAdvState a)) = None)))"
proof (intro conjI impI)
  assume "IsDesiredAdv ext d"
  from ctor_recognized [OF this] show "\<exists>a'. Advertisement_ctor ext d = Inr a'"
    by blast
next
  assume built: "Advertisement_ctor ext d = Inr a"
  then have "IsDesiredAdv ext d"
    by (simp add: Advertisement_ctor_def split: if_splits)
  from ctor_recognized [OF this] built obtain bytes where
    bytes: "manufacturerDataMap d (VendorId ext) = Some bytes" "IsValid ext bytes"
    and a: "a = \<lparr> data = d, protocol = reinterpret ext bytes,
                    state = scale_batteries (store_state (reinterpret ext bytes)) \<rparr>"
    by auto
  have stored:
    "data a = d" "protocol a = reinterpret ext bytes"
    "PodState.battery (left (AdvState.pods (GetAdvState a)))
       = times_10 (GetLeftBattery (reinterpret ext bytes))"
    "PodState.battery (right (AdvState.pods (GetAdvState a)))
       = times_10 (GetRightBattery (reinterpret ext bytes))"
    "CaseState.battery (AdvState.caseBox (GetAdvState a))
       = times_10 (GetCaseBattery (reinterpret ext bytes))"
    by (simp_all add: a GetAdvState_def scaled_left scaled_right scaled_case)
  show "\<exists>bytes.
           manufacturerDataMap d (VendorId ext) = Some bytes \<and> IsValid ext bytes
           \<and> data a = d \<and> protocol a = reinterpret ext bytes
           \<and> (\<forall>v. GetLeftBattery (reinterpret ext bytes) = Some v \<longrightarrow> v \<le> 10 \<longrightarrow>
                 PodState.battery (left (AdvState.pods (GetAdvState a))) = Some (v * 10))
           \<and> (GetLeftBattery (reinterpret ext bytes) = None \<longrightarrow>
                 PodState.battery (left (AdvState.pods (GetAdvState a))) = None)
           \<and> (\<forall>v. GetRightBattery (reinterpret ext bytes) = Some v \<longrightarrow> v \<le> 10 \<longrightarrow>
                 PodState.battery (right (AdvState.pods (GetAdvState a))) = Some (v * 10))
           \<and> (GetRightBattery (reinterpret ext bytes) = None \<longrightarrow>
                 PodState.battery (right (AdvState.pods (GetAdvState a))) = None)
           \<and> (\<forall>v. GetCaseBattery (reinterpret ext bytes) = Some v \<longrightarrow> v \<le> 10 \<longrightarrow>
                 CaseState.battery (AdvState.caseBox (GetAdvState a)) = Some (v * 10))
           \<and> (GetCaseBattery (reinterpret ext bytes) = None \<longrightarrow>
                 CaseState.battery (AdvState.caseBox (GetAdvState a)) = None)"
    by (rule exI [of _ bytes]) (simp add: bytes stored times_10_Some times_10_None)
qed

text \<open>
  Two sample records that differ in the left sub-field only: the one reading 7, 5 and
  unavailable is stored as 70, 50 and absent, the one reading 6 as 60.
\<close>

theorem battery_scaling_witness:
  "IsDesiredAdv sample_ext data_L1
   \<and> Advertisement_ctor sample_ext data_L1 = Inr adv_L1
   \<and> manufacturerDataMap data_L1 (VendorId sample_ext) = Some [0, 1, 7, 5, 15]
   \<and> GetLeftBattery (reinterpret sample_ext [0, 1, 7, 5, 15]) = Some 7
   \<and> PodState.battery (left (AdvState.pods (GetAdvState adv_L1))) = Some 70
   \<and> GetRightBattery (reinterpret sample_ext [0, 1, 7, 5, 15]) = Some 5
   \<and> PodState.battery (right (AdvState.pods (GetAdvState adv_L1))) = Some 50
   \<and> GetCaseBattery (reinterpret sample_ext [0, 1, 7, 5, 15]) = None
   \<and> CaseState.battery (AdvState.caseBox (GetAdvState adv_L1)) = None
   \<and> Advertisement_ctor sample_ext (sample_data 2 (- 40) [0, 1, 6, 5, 15]) = Inr adv_L1_step
   \<and> GetLeftBattery (reinterpret sample_ext [0, 1, 6, 5, 15]) = Some 6
   \<and> PodState.battery (left (AdvState.pods (GetAdvState adv_L1_step))) = Some 60"
proof -
  have r: "IsDesiredAdv sample_ext data_L1"
    by (simp add: IsDesiredAdv_def sample_defs)
  have c: "Advertisement_ctor sample_ext data_L1 = Inr adv_L1"
    unfolding data_L1_def adv_L1_def by (rule sample_adv_constructed) simp
  have c': "Advertisement_ctor sample_ext (sample_data 2 (- 40) [0, 1, 6, 5, 15]) = Inr adv_L1_step"
    unfolding adv_L1_step_def by (rule sample_adv_constructed) simp
  have m: "manufacturerDataMap data_L1 (VendorId sample_ext) = Some [0, 1, 7, 5, 15]"
    "manufacturerDataMap (sample_data 2 (- 40) [0, 1, 6, 5, 15]) (VendorId sample_ext)
       = Some [0, 1, 6, 5, 15]"
    by (simp_all add: sample_defs)
  have p: "GetLeftBattery (reinterpret sample_ext [0, 1, 7, 5, 15]) = Some 7"
    "GetRightBattery (reinterpret sample_ext [0, 1, 7, 5, 15]) = Some 5"
    "GetCaseBattery (reinterpret sample_ext [0, 1, 7, 5, 15]) = None"
    "GetLeftBattery (reinterpret sample_ext [0, 1, 6, 5, 15]) = Some 6"
    by (simp_all add: sample_defs)
  from battery_scaling [of sample_ext data_L1 adv_L1]
       battery_scaling [of sample_ext "sample_data 2 (- 40) [0, 1, 6, 5, 15]" adv_L1_step]
       r c c' m p
  show ?thesis by simp
qed

subsection \<open>The manager's entry point\<close>

text \<open>
  Claim C9. \<^verbatim>\<open>OnAdvertisementReceived\<close> never ends in a failed assertion: on a record
  that \<^verbatim>\<open>IsDesiredAdv\<close> refuses it returns before any \<^verbatim>\<open>Advertisement\<close> is constructed,
  and on a record that \<^verbatim>\<open>IsDesiredAdv\<close> admits the vendor entry exists, the payload
  parses and the constructor succeeds.
\<close>

theorem assertions_unreachable:
  "(\<exists>r. OnAdvertisementReceived ext d now m = Inr r)
   \<and> (\<not> IsDesiredAdv ext d \<longrightarrow> OnAdvertisementReceived ext d now m = Inr (False, [], m))
   \<and> (IsDesiredAdv ext d \<longrightarrow>
        (\<exists>bytes. GetMfrData ext d = Inr bytes \<and> As ext bytes \<noteq> None)
        \<and> (\<exists>a. Advertisement_ctor ext d = Inr a))"
proof (cases "IsDesiredAdv ext d")
  case False
  then show ?thesis by (auto simp: OnAdvertisementReceived_def)
next
  case True
  from ctor_recognized [OF True] obtain bytes a where
    b: "GetMfrData ext d = Inr bytes" "As ext bytes = Some (reinterpret ext bytes)"
    and a: "Advertisement_ctor ext d = Inr a"
    by blast
  have "\<exists>r. OnAdvertisementReceived ext d now m = Inr r"
    by (auto simp: OnAdvertisementReceived_def True a case_prod_beta Let_def)
  with True a b show ?thesis by simp
qed

theorem assertions_unreachable_witness:
  "IsDesiredAdv sample_ext data_L1
   \<and> GetMfrData sample_ext data_L1 = Inr [0, 1, 7, 5, 15]
   \<and> As sample_ext [0, 1, 7, 5, 15] \<noteq> None
   \<and> Advertisement_ctor sample_ext data_L1 = Inr adv_L1
   \<and> (\<exists>r. OnAdvertisementReceived sample_ext data_L1 1 (sample_manager True) = Inr r)"
proof -
  have r: "IsDesiredAdv sample_ext data_L1"
    by (simp add: IsDesiredAdv_def sample_defs)
  have c: "Advertisement_ctor sample_ext data_L1 = Inr adv_L1"
    unfolding data_L1_def adv_L1_def by (rule sample_adv_constructed) simp
  have b: "GetMfrData sample_ext data_L1 = Inr [0, 1, 7, 5, 15]"
    "As sample_ext [0, 1, 7, 5, 15] \<noteq> None"
    by (simp_all add: GetMfrData_def As_def sample_defs)
  from assertions_unreachable [of sample_ext data_L1 1 "sample_manager True"] r c b
  show ?thesis by simp
qed

text \<open>
  Claim C3, as stated: on a recognized record \<^verbatim>\<open>OnAdvertisementReceived\<close> returns true
  also when no device is connected. It does not: with no device connected the recognized
  sample record is logged and the function returns false.
\<close>

theorem recognized_while_disconnected_counterexample:
  "IsDesiredAdv sample_ext data_L1
   \<and> \<not> deviceConnected (sample_manager False)
   \<and> OnAdvertisementReceived sample_ext data_L1 1 (sample_manager False)
       = Inr (False,
              [LOG Trace Advertisement_received,
               LOG Info Advertisement_received_but_device_disconnected],
              sample_manager False)"
proof -
  have c: "Advertisement_ctor sample_ext data_L1 = Inr adv_L1"
    unfolding data_L1_def adv_L1_def by (rule sample_adv_constructed) simp
  have r: "IsDesiredAdv sample_ext data_L1"
    by (simp add: IsDesiredAdv_def sample_defs)
  show ?thesis
    by (simp add: OnAdvertisementReceived_def r c) (simp add: sample_manager_def)
qed

text \<open>
  Claim C3, amended. On a recognized record \<^verbatim>\<open>OnAdvertisementReceived\<close> returns whether
  a device is connected: true when one is, and false when none is, in which case the
  packet is only logged and the manager, with its state manager, is unchanged.
\<close>

theorem recognized_returns_connected:
  assumes "IsDesiredAdv ext d"
  shows "(\<exists>effects m'. OnAdvertisementReceived ext d now m = Inr (deviceConnected m, effects, m'))
       \<and> (\<not> deviceConnected m \<longrightarrow>
            OnAdvertisementReceived ext d now m =
              Inr (False,
                   [LOG Trace Advertisement_received,
                    LOG Info Advertisement_received_but_device_disconnected], m))"
proof -
  from ctor_recognized [OF assms] obtain a where a: "Advertisement_ctor ext d = Inr a"
    by blast
  show ?thesis
    by (simp add: OnAdvertisementReceived_def assms a case_prod_beta Let_def)
qed

theorem recognized_returns_connected_witness:
  "IsDesiredAdv sample_ext data_L1
   \<and> (\<exists>effects m'. OnAdvertisementReceived sample_ext data_L1 1 (sample_manager True)
                      = Inr (True, effects, m'))
   \<and> OnAdvertisementReceived sample_ext data_L1 1 (sample_manager False)
       = Inr (False,
              [LOG Trace Advertisement_received,
               LOG Info Advertisement_received_but_device_disconnected],
              sample_manager False)"
proof -
  have r: "IsDesiredAdv sample_ext data_L1"
    by (simp add: IsDesiredAdv_def sample_defs)
  have t: "deviceConnected (sample_manager True)" "\<not> deviceConnected (sample_manager False)"
    by (simp_all add: sample_manager_def)
  from recognized_returns_connected [OF r, of 1 "sample_manager True"]
       recognized_returns_connected [OF r, of 1 "sample_manager False"] r t
  show ?thesis by simp
qed


subsection \<open>The plausibility filter\<close>

lemma rssiDiff_small:
  assumes "\<bar>sint a - sint b\<bar> \<le> 50"
  shows "sint (rssiDiff a b) = \<bar>sint a - sint b\<bar>"
proof -
  have "signed_take_bit 15 \<bar>sint a - sint b\<bar> = \<bar>sint a - sint b\<bar>"
    using assms by (intro signed_take_bit_int_eq_self) simp_all
  then show ?thesis by (simp add: rssiDiff_def sint_sbintrunc')
qed

lemma batteryDiff_unchanged:
  assumes "Available new \<and> Available old \<longrightarrow> new = old"
  shows "batteryDiff new old = 0"
  using assms by (auto simp: batteryDiff_def)

lemma address_changed_block_passes:
  assumes "AdvState.model (GetAdvState a) = AdvState.model (GetAdvState l)"
      and "batteryDiff (PodState.battery (left (AdvState.pods (GetAdvState a))))
                       (PodState.battery (left (AdvState.pods (GetAdvState l)))) \<le> 1"
      and "batteryDiff (PodState.battery (right (AdvState.pods (GetAdvState a))))
                       (PodState.battery (right (AdvState.pods (GetAdvState l)))) \<le> 1"
      and "batteryDiff (CaseState.battery (AdvState.caseBox (GetAdvState a)))
                       (CaseState.battery (AdvState.caseBox (GetAdvState l))) \<le> 1"
      and "sint (rssiDiff (GetRssi a) (GetRssi l)) \<le> 50"
  shows "address_changed_block l a = (True, [LOG Warn Address_changed_but_might_be_same_device])"
  using assms by (simp add: address_changed_block_def Let_def not_less [symmetric])

lemma accepted_floor_and_other:
  assumes "IsPossibleDesiredAdv sm a"
  shows "\<not> sint (GetRssi a) < sint (rssiMin sm)
       \<and> (\<forall>l t. (if side (GetAdvState a) = Left then right (adv sm) else left (adv sm)) = Some (l, t)
             \<longrightarrow> \<not> 50 < sint (rssiDiff (GetRssi a) (GetRssi l)))"
  using assms
  by (auto simp: IsPossibleDesiredAdv_def IsPossibleDesiredAdv_log_def Let_def
      split: if_splits option.splits)

lemma rejected_unchanged:
  assumes "\<not> IsPossibleDesiredAdv sm a"
  shows "fst (OnAdvReceived a now sm) = None \<and> snd (snd (OnAdvReceived a now sm)) = sm"
  using assms
  by (simp add: OnAdvReceived_def IsPossibleDesiredAdv_def case_prod_beta)

text \<open>The two sample states, field by field.\<close>

lemma sm_left_fields:
  "adv sm_left = \<lparr> left = Some (adv_L1, 1), right = None \<rparr>"
  "rssiMin sm_left = - 100"
  "cachedState sm_left \<noteq> None"
  by (simp_all add: sample_defs decoder_defs machine_defs)

lemma sm_both_fields:
  "adv sm_both = \<lparr> left = Some (adv_L1, 1), right = Some (adv_R1, 2) \<rparr>"
  "rssiMin sm_both = - 100"
  by (simp_all add: sample_defs decoder_defs machine_defs)

text \<open>
  Claim C1, as stated: a packet above the floor whose same-side cached advertisement has
  another address is accepted whenever the model matches, the RSSI is within 50 of the
  same-side packet and no reported battery moved by more than one step. It is not: the
  filter goes on to compare the RSSI with the other side's cached packet (lines 261 to
  268). Here the left packet is 20 from the cached left one, with the same model and
  batteries, but 60 from the cached right one, and is rejected.
\<close>

theorem address_change_counterexample:
  "sint (rssiMin sm_both) \<le> sint (GetRssi adv_L1_near)
   \<and> side (GetAdvState adv_L1_near) = Left
   \<and> left (adv sm_both) = Some (adv_L1, 1)
   \<and> GetAddress adv_L1 \<noteq> GetAddress adv_L1_near
   \<and> AdvState.model (GetAdvState adv_L1_near) = AdvState.model (GetAdvState adv_L1)
   \<and> \<bar>sint (GetRssi adv_L1_near) - sint (GetRssi adv_L1)\<bar> \<le> 50
   \<and> AdvState.pods (GetAdvState adv_L1_near) = AdvState.pods (GetAdvState adv_L1)
   \<and> AdvState.caseBox (GetAdvState adv_L1_near) = AdvState.caseBox (GetAdvState adv_L1)
   \<and> \<not> IsPossibleDesiredAdv sm_both adv_L1_near"
  by (simp add: IsPossibleDesiredAdv_def IsPossibleDesiredAdv_log_def address_changed_block_def
        rssiDiff_def batteryDiff_def Let_def sm_both_fields)
     (simp add: sample_defs decoder_defs Let_def)

text \<open>
  Claim C1, amended. A packet above the floor whose same-side cached advertisement has
  another address is accepted whenever the model matches the cached one, the RSSI is
  within 50 of the cached same-side packet and, if the other side is cached, within 50
  of that packet too, and each of the left, right and case batteries that both packets
  report is unchanged.
\<close>

theorem address_change_accepted:
  assumes floor: "sint (rssiMin sm) \<le> sint (GetRssi a)"
      and same: "(if side (GetAdvState a) = Left then left (adv sm) else right (adv sm)) = Some (l, t)"
      and addr: "GetAddress l \<noteq> GetAddress a"
      and model: "AdvState.model (GetAdvState a) = AdvState.model (GetAdvState l)"
      and rssi: "\<bar>sint (GetRssi a) - sint (GetRssi l)\<bar> \<le> 50"
      and lb: "Available (PodState.battery (left (AdvState.pods (GetAdvState a))))
               \<and> Available (PodState.battery (left (AdvState.pods (GetAdvState l)))) \<longrightarrow>
               PodState.battery (left (AdvState.pods (GetAdvState a)))
                 = PodState.battery (left (AdvState.pods (GetAdvState l)))"
      and rb: "Available (PodState.battery (right (AdvState.pods (GetAdvState a))))
               \<and> Available (PodState.battery (right (AdvState.pods (GetAdvState l)))) \<longrightarrow>
               PodState.battery (right (AdvState.pods (GetAdvState a)))
                 = PodState.battery (right (AdvState.pods (GetAdvState l)))"
      and cb: "Available (CaseState.battery (AdvState.caseBox (GetAdvState a)))
               \<and> Available (CaseState.battery (AdvState.caseBox (GetAdvState l))) \<longrightarrow>
               CaseState.battery (AdvState.caseBox (GetAdvState a))
                 = CaseState.battery (AdvState.caseBox (GetAdvState l))"
      and other: "\<forall>l' t'. (if side (GetAdvState a) = Left then right (adv sm) else left (adv sm))
                            = Some (l', t') \<longrightarrow>
                          \<bar>sint (GetRssi a) - sint (GetRssi l')\<bar> \<le> 50"
  shows "IsPossibleDesiredAdv sm a"
proof -
  have block: "address_changed_block l a
                 = (True, [LOG Warn Address_changed_but_might_be_same_device])"
    using model rssi
    by (intro address_changed_block_passes)
       (simp_all add: batteryDiff_unchanged [OF lb] batteryDiff_unchanged [OF rb]
          batteryDiff_unchanged [OF cb] rssiDiff_small)
  have near: "\<not> 50 < sint (rssiDiff (GetRssi a) (GetRssi l'))"
    if "(if side (GetAdvState a) = Left then right (adv sm) else left (adv sm)) = Some (l', t')"
    for l' t'
    using other that rssiDiff_small [of "GetRssi a" "GetRssi l'"] by fastforce
  show ?thesis
  proof (cases "side (GetAdvState a) = Left")
    case True
    with same have s: "left (adv sm) = Some (l, t)" by simp
    show ?thesis
      using floor addr near True
      by (cases "right (adv sm)")
         (auto simp: IsPossibleDesiredAdv_def IsPossibleDesiredAdv_log_def Let_def s block)
  next
    case False
    with same have s: "right (adv sm) = Some (l, t)" by simp
    show ?thesis
      using floor addr near False
      by (cases "left (adv sm)")
         (auto simp: IsPossibleDesiredAdv_def IsPossibleDesiredAdv_log_def Let_def s block)
  qed
qed

theorem address_change_accepted_witness:
  "sint (rssiMin sm_both) \<le> sint (GetRssi adv_L1_rotated)
   \<and> side (GetAdvState adv_L1_rotated) = Left
   \<and> left (adv sm_both) = Some (adv_L1, 1)
   \<and> right (adv sm_both) = Some (adv_R1, 2)
   \<and> GetAddress adv_L1 \<noteq> GetAddress adv_L1_rotated
   \<and> \<bar>sint (GetRssi adv_L1_rotated) - sint (GetRssi adv_L1)\<bar> = 20
   \<and> \<bar>sint (GetRssi adv_L1_rotated) - sint (GetRssi adv_R1)\<bar> = 20
   \<and> IsPossibleDesiredAdv sm_both adv_L1_rotated"
proof -
  have h: "sint (rssiMin sm_both) \<le> sint (GetRssi adv_L1_rotated)"
    "side (GetAdvState adv_L1_rotated) = Left"
    "GetAddress adv_L1 \<noteq> GetAddress adv_L1_rotated"
    "AdvState.model (GetAdvState adv_L1_rotated) = AdvState.model (GetAdvState adv_L1)"
    "\<bar>sint (GetRssi adv_L1_rotated) - sint (GetRssi adv_L1)\<bar> = 20"
    "\<bar>sint (GetRssi adv_L1_rotated) - sint (GetRssi adv_R1)\<bar> = 20"
    "AdvState.pods (GetAdvState adv_L1_rotated) = AdvState.pods (GetAdvState adv_L1)"
    "AdvState.caseBox (GetAdvState adv_L1_rotated) = AdvState.caseBox (GetAdvState adv_L1)"
    by (simp_all add: sm_both_fields) (simp_all add: sample_defs decoder_defs Let_def)
  from address_change_accepted [of sm_both adv_L1_rotated adv_L1 1] h sm_both_fields
  show ?thesis by simp
qed

text \<open>
  The battery rule on stored values. The constructor stores percentages (lines 89 to
  97), the filter rejects a difference above 1 (line 244, under the comment "The battery
  changes in steps of 1"): a left battery that went from 70 to 60, one step, under a new
  address is rejected, nothing else having changed.
\<close>

lemma one_step_down_rejected:
  "PodState.battery (left (AdvState.pods (GetAdvState adv_L1))) = Some 70
   \<and> PodState.battery (left (AdvState.pods (GetAdvState adv_L1_step))) = Some 60
   \<and> left (adv sm_left) = Some (adv_L1, 1) \<and> right (adv sm_left) = None
   \<and> GetRssi adv_L1_step = GetRssi adv_L1
   \<and> IsPossibleDesiredAdv_log sm_left adv_L1_step = (False, [LOG Warn Reason_BatteryDiff])"
  by (simp add: IsPossibleDesiredAdv_log_def address_changed_block_def
        rssiDiff_def batteryDiff_def Let_def sm_left_fields)
     (simp add: sample_defs decoder_defs Let_def)

text \<open>
  Claim C8. When the filter rejects an advertisement, \<^verbatim>\<open>OnAdvReceived\<close> returns no event
  and the state manager it leaves is the one it found: both side caches, the canonical
  state and the three timers are as before.
\<close>

theorem rejected_no_change:
  assumes "\<not> IsPossibleDesiredAdv sm a"
  shows "fst (OnAdvReceived a now sm) = None
       \<and> snd (snd (OnAdvReceived a now sm)) = sm
       \<and> adv (snd (snd (OnAdvReceived a now sm))) = adv sm
       \<and> cachedState (snd (snd (OnAdvReceived a now sm))) = cachedState sm
       \<and> lostTimer (snd (snd (OnAdvReceived a now sm))) = lostTimer sm
       \<and> stateResetTimer (snd (snd (OnAdvReceived a now sm))) = stateResetTimer sm"
  using assms
  by (simp add: OnAdvReceived_def IsPossibleDesiredAdv_def case_prod_beta)

theorem rejected_no_change_witness:
  "\<not> IsPossibleDesiredAdv sm_left adv_L1_other_model
   \<and> OnAdvReceived adv_L1_other_model 2 sm_left
       = (None,
          [LOG Warn Reason_model, LOG Warn This_adv_may_not_be_from_the_device_we_desire],
          sm_left)"
proof -
  have log: "IsPossibleDesiredAdv_log sm_left adv_L1_other_model = (False, [LOG Warn Reason_model])"
    by (simp add: IsPossibleDesiredAdv_log_def address_changed_block_def Let_def sm_left_fields)
       (simp add: sample_defs decoder_defs Let_def)
  then have r: "\<not> IsPossibleDesiredAdv sm_left adv_L1_other_model"
    by (simp add: IsPossibleDesiredAdv_def)
  have fx: "fst (snd (OnAdvReceived adv_L1_other_model 2 sm_left))
              = [LOG Warn Reason_model, LOG Warn This_adv_may_not_be_from_the_device_we_desire]"
    by (simp add: OnAdvReceived_def log)
  from rejected_no_change [OF r, of 2] r fx show ?thesis
    by (simp add: prod_eq_iff)
qed


subsection \<open>The merge\<close>

lemma default_unavailable:
  "AdvState.model default_AdvState = Unknown"
  "\<not> Available (PodState.battery (left (AdvState.pods default_AdvState)))"
  "\<not> Available (PodState.battery (right (AdvState.pods default_AdvState)))"
  "\<not> Available (CaseState.battery (AdvState.caseBox default_AdvState))"
  by (simp_all add: default_AdvState_def default_PodState_def default_CaseState_def Available_def)

lemma PICK_SIDE_both:
  assumes "cond (fst (left c))" "cond (fst (right c))"
  shows "PICK_SIDE cond c = (if snd (left c) > snd (right c) then fst (left c) else fst (right c))"
  using assms by (simp add: PICK_SIDE_def)

lemma PICK_SIDE_only_left:
  assumes "cond (fst (left c))" "\<not> cond (fst (right c))"
  shows "PICK_SIDE cond c = fst (left c)"
  using assms by (simp add: PICK_SIDE_def)

lemma PICK_SIDE_not_left:
  assumes "\<not> cond (fst (left c))"
  shows "PICK_SIDE cond c = fst (right c)"
  using assms by (simp add: PICK_SIDE_def)

lemma PICK_SIDE_rule:
  "spec_group_rule (cond (fst (left c))) (cond (fst (right c))) (snd (left c)) (snd (right c))
     (g (fst (left c))) (g (fst (right c))) (g (PICK_SIDE cond c))
     (\<not> cond (PICK_SIDE cond c))"
  by (simp add: spec_group_rule_def PICK_SIDE_def)

lemma merged_fields:
  "State.model (merged c) = AdvState.model (PICK_SIDE (\<lambda>s. AdvState.model s \<noteq> Unknown) c)"
  "left (State.pods (merged c)) = left (AdvState.pods
      (PICK_SIDE (\<lambda>s. Available (PodState.battery (left (AdvState.pods s)))) c))"
  "right (State.pods (merged c)) = right (AdvState.pods
      (PICK_SIDE (\<lambda>s. Available (PodState.battery (right (AdvState.pods s)))) c))"
  "State.caseBox (merged c) = AdvState.caseBox
      (PICK_SIDE (\<lambda>s. Available (CaseState.battery (AdvState.caseBox s))) c)"
  by (simp_all add: merged_def)

lemma UpdateState_snd:
  "snd (UpdateState sm) = sm\<lparr> cachedState := Some (merged (cachedAdvState sm)) \<rparr>"
proof (cases "Some (merged (cachedAdvState sm)) = cachedState sm")
  case True
  then have "sm\<lparr> cachedState := Some (merged (cachedAdvState sm)) \<rparr> = sm" by simp
  with True show ?thesis by (simp add: UpdateState_def Let_def)
next
  case False
  then show ?thesis by (simp add: UpdateState_def Let_def)
qed

lemma UpdateState_fst:
  "fst (UpdateState sm) =
     (if Some (merged (cachedAdvState sm)) = cachedState sm then None
      else Some \<lparr> oldState = cachedState sm, newState = merged (cachedAdvState sm) \<rparr>)"
  by (simp add: UpdateState_def Let_def)

lemma sm_fresh_right_fields:
  "adv sm_fresh_right = \<lparr> left = Some (adv_L4, 1), right = Some (adv_R4, 2) \<rparr>"
  by (simp add: sample_defs decoder_defs machine_defs)

lemma sm_tie_fields:
  "adv sm_tie = \<lparr> left = Some (adv_L5, 5), right = Some (adv_R5, 5) \<rparr>"
  by (simp add: sample_defs decoder_defs machine_defs)

text \<open>
  Claim C4. \<^verbatim>\<open>UpdateState\<close> makes the merged state canonical, and each of the four field
  groups of the merged state follows the rule of the specification on its own: from the
  snapshot received later when both caches carry a usable value for the group, from the
  only cache that does when one does, unavailable when none does. A usable value is a
  model other than \<open>Unknown\<close>, or the battery of the pod or case in question; an empty
  cache carries none.
\<close>

theorem merge_field_groups:
  assumes "c = cachedAdvState sm"
      and "L = fst (left c)" and "tL = snd (left c)"
      and "R = fst (right c)" and "tR = snd (right c)"
      and "N = merged c"
  shows "cachedState (snd (UpdateState sm)) = Some N
       \<and> (\<forall>a t. left (adv sm) = Some (a, t) \<longrightarrow> L = GetAdvState a \<and> tL = t)
       \<and> (\<forall>a t. right (adv sm) = Some (a, t) \<longrightarrow> R = GetAdvState a \<and> tR = t)
       \<and> (left (adv sm) = None \<longrightarrow>
            AdvState.model L = Unknown
            \<and> \<not> Available (PodState.battery (left (AdvState.pods L)))
            \<and> \<not> Available (PodState.battery (right (AdvState.pods L)))
            \<and> \<not> Available (CaseState.battery (AdvState.caseBox L)))
       \<and> (right (adv sm) = None \<longrightarrow>
            AdvState.model R = Unknown
            \<and> \<not> Available (PodState.battery (left (AdvState.pods R)))
            \<and> \<not> Available (PodState.battery (right (AdvState.pods R)))
            \<and> \<not> Available (CaseState.battery (AdvState.caseBox R)))
       \<and> spec_group_rule (AdvState.model L \<noteq> Unknown) (AdvState.model R \<noteq> Unknown) tL tR
            (AdvState.model L) (AdvState.model R) (State.model N) (State.model N = Unknown)
       \<and> spec_group_rule (Available (PodState.battery (left (AdvState.pods L))))
            (Available (PodState.battery (left (AdvState.pods R)))) tL tR
            (left (AdvState.pods L)) (left (AdvState.pods R)) (left (State.pods N))
            (\<not> Available (PodState.battery (left (State.pods N))))
       \<and> spec_group_rule (Available (PodState.battery (right (AdvState.pods L))))
            (Available (PodState.battery (right (AdvState.pods R)))) tL tR
            (right (AdvState.pods L)) (right (AdvState.pods R)) (right (State.pods N))
            (\<not> Available (PodState.battery (right (State.pods N))))
       \<and> spec_group_rule (Available (CaseState.battery (AdvState.caseBox L)))
            (Available (CaseState.battery (AdvState.caseBox R))) tL tR
            (AdvState.caseBox L) (AdvState.caseBox R) (State.caseBox N)
            (\<not> Available (CaseState.battery (State.caseBox N)))"
proof -
  have canonical: "cachedState (snd (UpdateState sm)) = Some N"
    by (simp add: UpdateState_snd assms)
  have cached:
    "\<forall>a t. left (adv sm) = Some (a, t) \<longrightarrow> L = GetAdvState a \<and> tL = t"
    "\<forall>a t. right (adv sm) = Some (a, t) \<longrightarrow> R = GetAdvState a \<and> tR = t"
    by (simp_all add: assms cachedAdvState_def)
  have "left (adv sm) = None \<longrightarrow> L = default_AdvState"
    "right (adv sm) = None \<longrightarrow> R = default_AdvState"
    by (simp_all add: assms cachedAdvState_def)
  with default_unavailable have empty:
    "left (adv sm) = None \<longrightarrow>
       AdvState.model L = Unknown
       \<and> \<not> Available (PodState.battery (left (AdvState.pods L)))
       \<and> \<not> Available (PodState.battery (right (AdvState.pods L)))
       \<and> \<not> Available (CaseState.battery (AdvState.caseBox L))"
    "right (adv sm) = None \<longrightarrow>
       AdvState.model R = Unknown
       \<and> \<not> Available (PodState.battery (left (AdvState.pods R)))
       \<and> \<not> Available (PodState.battery (right (AdvState.pods R)))
       \<and> \<not> Available (CaseState.battery (AdvState.caseBox R))"
    by auto
  have model: "spec_group_rule (AdvState.model L \<noteq> Unknown) (AdvState.model R \<noteq> Unknown) tL tR
      (AdvState.model L) (AdvState.model R) (State.model N) (State.model N = Unknown)"
    using PICK_SIDE_rule [of "\<lambda>s. AdvState.model s \<noteq> Unknown" c AdvState.model]
    by (simp add: assms(2-6) merged_fields)
  have lpod: "spec_group_rule (Available (PodState.battery (left (AdvState.pods L))))
      (Available (PodState.battery (left (AdvState.pods R)))) tL tR
      (left (AdvState.pods L)) (left (AdvState.pods R)) (left (State.pods N))
      (\<not> Available (PodState.battery (left (State.pods N))))"
    using PICK_SIDE_rule [of "\<lambda>s. Available (PodState.battery (left (AdvState.pods s)))" c
                             "\<lambda>s. left (AdvState.pods s)"]
    by (simp add: assms(2-6) merged_fields)
  have rpod: "spec_group_rule (Available (PodState.battery (right (AdvState.pods L))))
      (Available (PodState.battery (right (AdvState.pods R)))) tL tR
      (right (AdvState.pods L)) (right (AdvState.pods R)) (right (State.pods N))
      (\<not> Available (PodState.battery (right (State.pods N))))"
    using PICK_SIDE_rule [of "\<lambda>s. Available (PodState.battery (right (AdvState.pods s)))" c
                             "\<lambda>s. right (AdvState.pods s)"]
    by (simp add: assms(2-6) merged_fields)
  have cbox: "spec_group_rule (Available (CaseState.battery (AdvState.caseBox L)))
      (Available (CaseState.battery (AdvState.caseBox R))) tL tR
      (AdvState.caseBox L) (AdvState.caseBox R) (State.caseBox N)
      (\<not> Available (CaseState.battery (State.caseBox N)))"
    using PICK_SIDE_rule [of "\<lambda>s. Available (CaseState.battery (AdvState.caseBox s))" c
                             AdvState.caseBox]
    by (simp add: assms(2-6) merged_fields)
  from canonical cached empty model lpod rpod cbox show ?thesis by blast
qed

text \<open>
  The specification's two examples: the left cache at time 1 with model 1 and the right
  one at time 2 with model 2 merge to model 2; the left pod's battery, unavailable in the
  left cache and 40 in the right one, merges to 40. No cache has a case battery.
\<close>

theorem merge_field_groups_witness:
  "left (adv sm_fresh_right) = Some (adv_L4, 1) \<and> right (adv sm_fresh_right) = Some (adv_R4, 2)
   \<and> AdvState.model (GetAdvState adv_L4) = Model_Id 1
   \<and> AdvState.model (GetAdvState adv_R4) = Model_Id 2
   \<and> State.model (merged (cachedAdvState sm_fresh_right)) = Model_Id 2
   \<and> PodState.battery (left (AdvState.pods (GetAdvState adv_L4))) = None
   \<and> PodState.battery (left (AdvState.pods (GetAdvState adv_R4))) = Some 40
   \<and> PodState.battery (left (State.pods (merged (cachedAdvState sm_fresh_right)))) = Some 40
   \<and> \<not> Available (CaseState.battery (State.caseBox (merged (cachedAdvState sm_fresh_right))))
   \<and> cachedState (snd (UpdateState sm_fresh_right)) = Some (merged (cachedAdvState sm_fresh_right))"
proof -
  have c: "left (cachedAdvState sm_fresh_right) = (GetAdvState adv_L4, 1)"
    "right (cachedAdvState sm_fresh_right) = (GetAdvState adv_R4, 2)"
    by (simp_all add: cachedAdvState_def sm_fresh_right_fields)
  have s: "AdvState.model (GetAdvState adv_L4) = Model_Id 1"
    "AdvState.model (GetAdvState adv_R4) = Model_Id 2"
    "PodState.battery (left (AdvState.pods (GetAdvState adv_L4))) = None"
    "PodState.battery (left (AdvState.pods (GetAdvState adv_R4))) = Some 40"
    "CaseState.battery (AdvState.caseBox (GetAdvState adv_L4)) = None"
    "CaseState.battery (AdvState.caseBox (GetAdvState adv_R4)) = None"
    by (simp_all add: sample_defs decoder_defs Let_def)
  from merge_field_groups [OF refl refl refl refl refl refl, of sm_fresh_right]
  show ?thesis
    by (simp add: spec_group_rule_def c s sm_fresh_right_fields Available_def)
qed

text \<open>
  Claim C10. When both caches carry a usable value for a field group, the merged group
  is the left snapshot's if the left receipt timestamp is strictly later than the right
  one, and the right snapshot's otherwise, in particular when the two are equal.
\<close>

theorem tie_goes_right:
  assumes "left (adv sm) = Some (aL, tL)" and "right (adv sm) = Some (aR, tR)"
      and "L = GetAdvState aL" and "R = GetAdvState aR"
      and "N = merged (cachedAdvState sm)"
  shows "(AdvState.model L \<noteq> Unknown \<and> AdvState.model R \<noteq> Unknown \<longrightarrow>
            State.model N = AdvState.model (if tL > tR then L else R))
       \<and> (Available (PodState.battery (left (AdvState.pods L)))
            \<and> Available (PodState.battery (left (AdvState.pods R))) \<longrightarrow>
            left (State.pods N) = left (AdvState.pods (if tL > tR then L else R)))
       \<and> (Available (PodState.battery (right (AdvState.pods L)))
            \<and> Available (PodState.battery (right (AdvState.pods R))) \<longrightarrow>
            right (State.pods N) = right (AdvState.pods (if tL > tR then L else R)))
       \<and> (Available (CaseState.battery (AdvState.caseBox L))
            \<and> Available (CaseState.battery (AdvState.caseBox R)) \<longrightarrow>
            State.caseBox N = AdvState.caseBox (if tL > tR then L else R))"
proof -
  have c: "left (cachedAdvState sm) = (L, tL)" "right (cachedAdvState sm) = (R, tR)"
    using assms by (simp_all add: cachedAdvState_def)
  show ?thesis
    by (simp add: assms(5) merged_fields PICK_SIDE_both c)
qed

text \<open>
  Both sides cached at time 5, both with a right-pod battery: 40 in the left snapshot,
  50 in the right one. The merged right pod has 50.
\<close>

theorem tie_goes_right_witness:
  "left (adv sm_tie) = Some (adv_L5, 5) \<and> right (adv sm_tie) = Some (adv_R5, 5)
   \<and> PodState.battery (right (AdvState.pods (GetAdvState adv_L5))) = Some 40
   \<and> PodState.battery (right (AdvState.pods (GetAdvState adv_R5))) = Some 50
   \<and> right (State.pods (merged (cachedAdvState sm_tie)))
       = right (AdvState.pods (GetAdvState adv_R5))"
proof -
  have l: "left (adv sm_tie) = Some (adv_L5, 5)" and r: "right (adv sm_tie) = Some (adv_R5, 5)"
    by (simp_all add: sm_tie_fields)
  have s: "PodState.battery (right (AdvState.pods (GetAdvState adv_L5))) = Some 40"
    "PodState.battery (right (AdvState.pods (GetAdvState adv_R5))) = Some 50"
    by (simp_all add: sample_defs decoder_defs Let_def)
  from tie_goes_right [OF l r refl refl refl] l r s
  show ?thesis by (simp add: Available_def)
qed


subsection \<open>Repeated advertisements\<close>

lemma accepted_OnAdvReceived:
  assumes "IsPossibleDesiredAdv sm a"
  shows "OnAdvReceived a now sm =
           (fst (UpdateState (UpdateAdv a now sm)), snd (IsPossibleDesiredAdv_log sm a),
            snd (UpdateState (UpdateAdv a now sm)))"
  using assms by (simp add: OnAdvReceived_def IsPossibleDesiredAdv_def case_prod_beta Let_def)

lemma UpdateAdv_fields:
  "rssiMin (UpdateAdv a now sm) = rssiMin sm"
  "cachedState (UpdateAdv a now sm) = cachedState sm"
  "adv (UpdateAdv a now sm) =
     (if side (GetAdvState a) = Left then (adv sm)\<lparr> left := Some (a, now) \<rparr>
      else (adv sm)\<lparr> right := Some (a, now) \<rparr>)"
  by (cases "side (GetAdvState a)"; simp add: UpdateAdv_def Let_def)+

lemma repeat_accepted:
  assumes "IsPossibleDesiredAdv sm a"
  shows "IsPossibleDesiredAdv (snd (UpdateState (UpdateAdv a now sm))) a"
proof -
  let ?sm1 = "snd (UpdateState (UpdateAdv a now sm))"
  have f: "rssiMin ?sm1 = rssiMin sm"
    "adv ?sm1 = (if side (GetAdvState a) = Left then (adv sm)\<lparr> left := Some (a, now) \<rparr>
                 else (adv sm)\<lparr> right := Some (a, now) \<rparr>)"
    by (simp_all add: UpdateState_snd UpdateAdv_fields)
  from accepted_floor_and_other [OF assms] show ?thesis
    by (cases "side (GetAdvState a)")
       (auto simp: IsPossibleDesiredAdv_def IsPossibleDesiredAdv_log_def Let_def f
          split: option.splits)
qed

lemma PICK_SIDE_left_time:
  assumes "cond B \<longrightarrow> (t1 > t) = (t2 > t)"
  shows "PICK_SIDE cond \<lparr> left = (A, t1), right = (B, t) \<rparr>
       = PICK_SIDE cond \<lparr> left = (A, t2), right = (B, t) \<rparr>"
  using assms by (auto simp: PICK_SIDE_def)

lemma PICK_SIDE_right_time:
  assumes "cond A \<longrightarrow> (t > t1) = (t > t2)"
  shows "PICK_SIDE cond \<lparr> left = (A, t), right = (B, t1) \<rparr>
       = PICK_SIDE cond \<lparr> left = (A, t), right = (B, t2) \<rparr>"
  using assms by (auto simp: PICK_SIDE_def)

lemma merged_left_time:
  assumes "B = default_AdvState \<or> (t1 > t) = (t2 > t)"
  shows "merged \<lparr> left = (A, t1), right = (B, t) \<rparr> = merged \<lparr> left = (A, t2), right = (B, t) \<rparr>"
  unfolding merged_def
  using assms default_unavailable
  by (subst (1 2 3 4) PICK_SIDE_left_time [where ?t2.0 = t2]) auto

lemma merged_right_time:
  assumes "A = default_AdvState \<or> (t > t1) = (t > t2)"
  shows "merged \<lparr> left = (A, t), right = (B, t1) \<rparr> = merged \<lparr> left = (A, t), right = (B, t2) \<rparr>"
  unfolding merged_def
  using assms default_unavailable
  by (subst (1 2 3 4) PICK_SIDE_right_time [where ?t2.0 = t2]) auto

lemma repeat_merged:
  assumes "same_order sm a t1 t2"
  shows "merged (cachedAdvState (UpdateAdv a t2 (snd (UpdateState (UpdateAdv a t1 sm)))))
       = merged (cachedAdvState (UpdateAdv a t1 sm))"
proof (cases "side (GetAdvState a) = Left")
  case True
  show ?thesis
    using assms True
    by (cases "right (adv sm)")
       (auto simp: cachedAdvState_def UpdateAdv_fields UpdateState_snd same_order_def
             intro!: merged_left_time [symmetric])
next
  case False
  show ?thesis
    using assms False
    by (cases "left (adv sm)")
       (auto simp: cachedAdvState_def UpdateAdv_fields UpdateState_snd same_order_def
             intro!: merged_right_time [symmetric])
qed

text \<open>A clock that moves on after the other side was cached keeps the order.\<close>

lemma same_order_increasing:
  assumes "\<forall>l t. (if side (GetAdvState a) = Left then right (adv sm) else left (adv sm)) = Some (l, t)
             \<longrightarrow> t < t1"
      and "t1 \<le> t2"
  shows "same_order sm a t1 t2"
  using assms by (auto simp: same_order_def split: option.splits)

lemma sm_right_at_5_fields:
  "adv sm_right_at_5 = \<lparr> left = None, right = Some (adv_R5, 5) \<rparr>"
  "rssiMin sm_right_at_5 = - 100"
  by (simp_all add: sample_defs decoder_defs machine_defs)

lemma sm_tie_is_first_submission:
  "snd (snd (OnAdvReceived adv_L5 5 sm_right_at_5)) = sm_tie"
  by (simp add: sm_tie_def sm_right_at_5_def after_def case_prod_beta Let_def)

text \<open>
  Claim C5, as stated: an accepted advertisement that produced an event produces none when
  submitted again before any timer fires, and leaves the canonical state as it is. Not
  when the first submission was stored at the very clock reading of the other side's
  entry. The right bud is cached at time 5; the left bud's packet arrives at time 5 too,
  is accepted and produces an event (the tie leaves the right pod with the right
  snapshot); the identical packet at time 6 is accepted and produces another event, as the
  left snapshot is now the later one and takes the right pod over.
\<close>

theorem repeat_after_tie_counterexample:
  "IsPossibleDesiredAdv sm_right_at_5 adv_L5
   \<and> fst (OnAdvReceived adv_L5 5 sm_right_at_5) \<noteq> None
   \<and> IsPossibleDesiredAdv (snd (snd (OnAdvReceived adv_L5 5 sm_right_at_5))) adv_L5
   \<and> fst (OnAdvReceived adv_L5 6 (snd (snd (OnAdvReceived adv_L5 5 sm_right_at_5)))) \<noteq> None
   \<and> cachedState (snd (snd (OnAdvReceived adv_L5 6
                               (snd (snd (OnAdvReceived adv_L5 5 sm_right_at_5))))))
       \<noteq> cachedState (snd (snd (OnAdvReceived adv_L5 5 sm_right_at_5)))"
proof -
  have a1: "IsPossibleDesiredAdv sm_right_at_5 adv_L5"
    by (simp add: IsPossibleDesiredAdv_def IsPossibleDesiredAdv_log_def rssiDiff_def Let_def
          sm_right_at_5_fields)
       (simp add: sample_defs decoder_defs Let_def)
  have a2: "IsPossibleDesiredAdv sm_tie adv_L5"
    using repeat_accepted [OF a1, of 5]
    by (simp add: sm_tie_is_first_submission [symmetric] accepted_OnAdvReceived [OF a1])
  have s: "GetAdvState adv_L5 = scale_batteries (store_state (sample_protocol 0 1 6 4 15))"
    "GetAdvState adv_R5 = scale_batteries (store_state (sample_protocol 1 1 15 5 15))"
    by (simp_all add: GetAdvState_def adv_L5_def adv_R5_def sample_adv_def)
  have c0: "cachedState sm_right_at_5 = Some (merged \<lparr> left = (default_AdvState, 0),
                                                      right = (GetAdvState adv_R5, 5) \<rparr>)"
    by (simp add: sample_defs decoder_defs machine_defs)
  have m0: "PodState.battery (left (State.pods (merged \<lparr> left = (default_AdvState, 0),
              right = (GetAdvState adv_R5, 5) \<rparr>))) = None"
    by (simp add: s merged_def PICK_SIDE_def default_AdvState_def default_PodState_def
          default_CaseState_def sample_protocol_def sample_battery_def scale_batteries_def
          store_state_def times_10_def Available_def Let_def)
  have m1: "PodState.battery (left (State.pods (merged \<lparr> left = (GetAdvState adv_L5, 5),
              right = (GetAdvState adv_R5, 5) \<rparr>))) = Some 60"
    "PodState.battery (right (State.pods (merged \<lparr> left = (GetAdvState adv_L5, 5),
              right = (GetAdvState adv_R5, 5) \<rparr>))) = Some 50"
    by (simp_all add: s merged_def PICK_SIDE_def sample_protocol_def sample_battery_def
          scale_batteries_def store_state_def times_10_def Available_def Let_def)
  have m2: "PodState.battery (right (State.pods (merged \<lparr> left = (GetAdvState adv_L5, 6),
              right = (GetAdvState adv_R5, 5) \<rparr>))) = Some 40"
    by (simp add: s merged_def PICK_SIDE_def sample_protocol_def sample_battery_def
          scale_batteries_def store_state_def times_10_def Available_def Let_def)
  have side: "side (GetAdvState adv_L5) = Left"
    by (simp add: s scale_batteries_def store_state_def sample_protocol_def Let_def)
  have c1: "cachedAdvState (UpdateAdv adv_L5 5 sm_right_at_5)
              = \<lparr> left = (GetAdvState adv_L5, 5), right = (GetAdvState adv_R5, 5) \<rparr>"
    by (simp add: cachedAdvState_def UpdateAdv_fields side sm_right_at_5_fields)
  have c2: "cachedAdvState (UpdateAdv adv_L5 6 sm_tie)
              = \<lparr> left = (GetAdvState adv_L5, 6), right = (GetAdvState adv_R5, 5) \<rparr>"
    by (simp add: cachedAdvState_def UpdateAdv_fields side sm_tie_fields)
  have e1: "fst (OnAdvReceived adv_L5 5 sm_right_at_5) \<noteq> None"
    using m0 m1(1)
    by (auto simp: accepted_OnAdvReceived [OF a1] UpdateState_fst UpdateAdv_fields c0 c1)
  have t: "cachedState sm_tie = Some (merged \<lparr> left = (GetAdvState adv_L5, 5),
                                               right = (GetAdvState adv_R5, 5) \<rparr>)"
    by (simp add: sm_tie_is_first_submission [symmetric] accepted_OnAdvReceived [OF a1]
          UpdateState_snd c1)
  have e2: "fst (OnAdvReceived adv_L5 6 sm_tie) \<noteq> None"
    using m1(2) m2
    by (auto simp: accepted_OnAdvReceived [OF a2] UpdateState_fst UpdateAdv_fields t c2)
  have s2: "cachedState (snd (snd (OnAdvReceived adv_L5 6 sm_tie))) \<noteq> cachedState sm_tie"
    using m1(2) m2
    by (auto simp: accepted_OnAdvReceived [OF a2] UpdateState_snd t c2)
  from a1 a2 e1 e2 s2 show ?thesis
    by (simp add: sm_tie_is_first_submission)
qed

text \<open>
  Claim C5, amended. An accepted advertisement that produced an event is accepted again
  when submitted a second time with no timer firing in between, produces no event and
  leaves the canonical state as it is, provided the second receipt time stands to the
  other side's cached receipt time as the first did: always when the other side is not
  cached, or was cached strictly before the first submission and the clock has not gone
  back.
\<close>

theorem repeat_no_event:
  assumes "IsPossibleDesiredAdv sm a"
      and "OnAdvReceived a t1 sm = (Some e, logged, sm1)"
      and "same_order sm a t1 t2"
  shows "IsPossibleDesiredAdv sm1 a
       \<and> fst (OnAdvReceived a t2 sm1) = None
       \<and> cachedState (snd (snd (OnAdvReceived a t2 sm1))) = cachedState sm1"
proof -
  have sm1: "sm1 = snd (UpdateState (UpdateAdv a t1 sm))"
    using assms(2) by (simp add: accepted_OnAdvReceived [OF assms(1)])
  have acc: "IsPossibleDesiredAdv sm1 a"
    unfolding sm1 by (rule repeat_accepted [OF assms(1)])
  have c1: "cachedState sm1 = Some (merged (cachedAdvState (UpdateAdv a t1 sm)))"
    by (simp add: sm1 UpdateState_snd)
  have same: "Some (merged (cachedAdvState (UpdateAdv a t2 sm1))) = cachedState (UpdateAdv a t2 sm1)"
    using repeat_merged [OF assms(3)] by (simp add: UpdateAdv_fields sm1 UpdateState_snd)
  show ?thesis
    using acc same
    by (simp add: accepted_OnAdvReceived [OF acc] UpdateState_fst UpdateState_snd
          UpdateAdv_fields c1)
qed

text \<open>The same packets with the clock moving on: times 5, then 6, then 7.\<close>

theorem repeat_no_event_witness:
  "IsPossibleDesiredAdv sm_right_at_5 adv_L5
   \<and> fst (OnAdvReceived adv_L5 6 sm_right_at_5) \<noteq> None
   \<and> same_order sm_right_at_5 adv_L5 6 7
   \<and> IsPossibleDesiredAdv (snd (snd (OnAdvReceived adv_L5 6 sm_right_at_5))) adv_L5
   \<and> fst (OnAdvReceived adv_L5 7 (snd (snd (OnAdvReceived adv_L5 6 sm_right_at_5)))) = None
   \<and> cachedState (snd (snd (OnAdvReceived adv_L5 7
                               (snd (snd (OnAdvReceived adv_L5 6 sm_right_at_5))))))
       = cachedState (snd (snd (OnAdvReceived adv_L5 6 sm_right_at_5)))"
proof -
  have a1: "IsPossibleDesiredAdv sm_right_at_5 adv_L5"
    by (simp add: IsPossibleDesiredAdv_def IsPossibleDesiredAdv_log_def rssiDiff_def Let_def
          sm_right_at_5_fields)
       (simp add: sample_defs decoder_defs Let_def)
  have side: "side (GetAdvState adv_L5) = Left"
    by (simp add: sample_defs decoder_defs Let_def)
  have o: "same_order sm_right_at_5 adv_L5 6 7"
    by (simp add: same_order_def side sm_right_at_5_fields)
  have e1: "fst (OnAdvReceived adv_L5 6 sm_right_at_5) \<noteq> None"
    by (simp add: accepted_OnAdvReceived [OF a1] UpdateState_fst)
       (simp add: sample_defs decoder_defs machine_defs)
  then obtain e where e: "fst (OnAdvReceived adv_L5 6 sm_right_at_5) = Some e"
    by blast
  have first: "OnAdvReceived adv_L5 6 sm_right_at_5
                 = (Some e, fst (snd (OnAdvReceived adv_L5 6 sm_right_at_5)),
                    snd (snd (OnAdvReceived adv_L5 6 sm_right_at_5)))"
    by (simp add: e [symmetric])
  from repeat_no_event [OF a1 first o] a1 e1 o show ?thesis by simp
qed


subsection \<open>Timers\<close>

lemma DoLost_canonical:
  assumes "cachedState sm \<noteq> None"
  shows "DoLost sm = ([LOG Info Device_is_lost, DisconnectSafely],
                      sm\<lparr> adv := \<lparr> left = None, right = None \<rparr>, cachedState := None \<rparr>)"
  using assms by (simp add: DoLost_def ResetAll_def)

lemma DoLost_empty:
  assumes "cachedState sm = None" "adv sm = \<lparr> left = None, right = None \<rparr>"
  shows "DoLost sm = ([], sm)"
  using assms by (simp add: DoLost_def ResetAll_def)

lemma block_logs: "set (snd (address_changed_block l a)) \<subseteq> range (LOG Warn)"
  by (simp add: address_changed_block_def Let_def)

lemma filter_logs: "set (snd (IsPossibleDesiredAdv_log sm a)) \<subseteq> range (LOG Warn)"
proof -
  have same: "set (snd (case x of None \<Rightarrow> (True, [])
                 | Some (l, t) \<Rightarrow> if GetAddress l \<noteq> GetAddress a then address_changed_block l a
                                  else (True, []))) \<subseteq> range (LOG Warn)" for x
    using block_logs by (cases x) (auto split: prod.splits)
  show ?thesis
    unfolding IsPossibleDesiredAdv_log_def Let_def
    using same [of "left (adv sm)"] same [of "right (adv sm)"]
    by (auto split: option.splits prod.splits if_splits)
qed

lemma OnAdvReceived_logs: "set (fst (snd (OnAdvReceived a now sm))) \<subseteq> range (LOG Warn)"
  using filter_logs [of sm a]
  by (auto simp: OnAdvReceived_def case_prod_beta Let_def)

lemma step_no_lost_firing:
  assumes "i \<noteq> LostTimer_fired"
  shows "DisconnectSafely \<notin> set (fst (snd (StateManager_step i sm)))
       \<and> LOG Info Device_is_lost \<notin> set (fst (snd (StateManager_step i sm)))"
proof (cases i)
  case (AdvReceived a now)
  then show ?thesis using OnAdvReceived_logs [of a now sm] by auto
next
  case LostTimer_fired
  with assms show ?thesis by simp
next
  case (StateResetTimer_fired s)
  then show ?thesis by (simp add: DoStateReset_def)
qed

lemma step_not_accepted_cachedState:
  assumes "i \<noteq> LostTimer_fired"
      and "case i of AdvReceived a now \<Rightarrow> \<not> IsPossibleDesiredAdv sm a | _ \<Rightarrow> True"
  shows "cachedState (snd (snd (StateManager_step i sm))) = cachedState sm"
proof (cases i)
  case (AdvReceived a now)
  then show ?thesis using assms rejected_unchanged [of sm a now] by simp
next
  case LostTimer_fired
  with assms show ?thesis by simp
next
  case (StateResetTimer_fired s)
  then show ?thesis by (simp add: DoStateReset_def)
qed

text \<open>On an empty state machine, inputs that are not accepted do and change nothing.\<close>

lemma run_empty_state:
  assumes "none_accepted inputs sm" "cachedState sm = None"
      and "adv sm = \<lparr> left = None, right = None \<rparr>"
  shows "count_list (fst (snd (run inputs sm))) DisconnectSafely = 0
       \<and> count_list (fst (snd (run inputs sm))) (LOG Info Device_is_lost) = 0
       \<and> snd (snd (run inputs sm)) = sm"
  using assms
proof (induction inputs arbitrary: sm)
  case Nil
  then show ?case by simp
next
  case (Cons i inputs)
  have step: "StateManager_step i sm = (None, fst (snd (StateManager_step i sm)), sm)
              \<and> DisconnectSafely \<notin> set (fst (snd (StateManager_step i sm)))
              \<and> LOG Info Device_is_lost \<notin> set (fst (snd (StateManager_step i sm)))"
  proof (cases i)
    case (AdvReceived a now)
    with Cons.prems have "\<not> IsPossibleDesiredAdv sm a" by simp
    from rejected_unchanged [OF this, of now] step_no_lost_firing [of i sm] AdvReceived
    show ?thesis by (simp add: prod_eq_iff)
  next
    case LostTimer_fired
    then show ?thesis using DoLost_empty [OF Cons.prems(2,3)] by simp
  next
    case (StateResetTimer_fired s)
    then show ?thesis using Cons.prems(3) by (simp add: DoStateReset_def)
  qed
  then have sm': "snd (snd (StateManager_step i sm)) = sm" by (metis snd_conv)
  from Cons.prems sm' have "none_accepted inputs sm" by simp
  from Cons.IH [OF this Cons.prems(2,3)] step
  show ?case
    by (simp add: case_prod_beta count_list_0_iff sm')
qed

text \<open>
  Claim C7. From a state with a canonical state, let any inputs follow of which no
  advertisement is accepted: advertisements the filter rejects, and firings of the three
  timers. If the lost timer fires among them at all, however often, then the main window
  is told of the disconnection exactly once and the loss is logged exactly once, and at
  the end both caches and the canonical state are empty; the firings after the first find
  the state empty, clear nothing and notify nobody.
\<close>

theorem lost_exactly_once:
  assumes "cachedState sm \<noteq> None"
      and "none_accepted inputs sm"
      and "LostTimer_fired \<in> set inputs"
  shows "count_list (fst (snd (run inputs sm))) DisconnectSafely = 1
       \<and> count_list (fst (snd (run inputs sm))) (LOG Info Device_is_lost) = 1
       \<and> cachedState (snd (snd (run inputs sm))) = None
       \<and> adv (snd (snd (run inputs sm))) = \<lparr> left = None, right = None \<rparr>
       \<and> (\<forall>sm'. cachedState sm' = None \<and> adv sm' = \<lparr> left = None, right = None \<rparr> \<longrightarrow>
             StateManager_step LostTimer_fired sm' = (None, [], sm'))"
  using assms
proof (induction inputs arbitrary: sm)
  case Nil
  then show ?case by simp
next
  case (Cons i inputs)
  let ?sm' = "snd (snd (StateManager_step i sm))"
  let ?fx = "fst (snd (StateManager_step i sm))"
  have run: "fst (snd (run (i # inputs) sm)) = ?fx @ fst (snd (run inputs ?sm'))
           \<and> snd (snd (run (i # inputs) sm)) = snd (snd (run inputs ?sm'))"
    by (simp add: case_prod_beta)
  from Cons.prems(2) have rest: "none_accepted inputs ?sm'" by simp
  have later: "\<forall>sm'. cachedState sm' = None \<and> adv sm' = \<lparr> left = None, right = None \<rparr> \<longrightarrow>
                 StateManager_step LostTimer_fired sm' = (None, [], sm')"
    by (simp add: DoLost_empty)
  show ?case
  proof (cases "i = LostTimer_fired")
    case True
    have fx: "?fx = [LOG Info Device_is_lost, DisconnectSafely]"
     and sm': "?sm' = sm\<lparr> adv := \<lparr> left = None, right = None \<rparr>, cachedState := None \<rparr>"
      using True DoLost_canonical [OF Cons.prems(1)] by simp_all
    have "cachedState ?sm' = None" "adv ?sm' = \<lparr> left = None, right = None \<rparr>"
      by (simp_all add: sm')
    from run_empty_state [OF rest this] later show ?thesis
      by (simp add: run fx del: run.simps) (simp add: sm')
  next
    case False
    with Cons.prems(3) have mem: "LostTimer_fired \<in> set inputs" by auto
    from Cons.prems(2) have "case i of AdvReceived a now \<Rightarrow> \<not> IsPossibleDesiredAdv sm a | _ \<Rightarrow> True"
      by simp
    from step_not_accepted_cachedState [OF False this] Cons.prems(1)
    have "cachedState ?sm' \<noteq> None" by simp
    from Cons.IH [OF this rest mem] step_no_lost_firing [OF False, of sm] later
    show ?thesis
      by (simp add: run count_list_0_iff del: run.simps)
  qed
qed

text \<open>
  The left bud is cached and canonical. A packet of another model is rejected, the left
  expiry fires, the lost timer fires, the right expiry fires, the lost timer fires again.
\<close>

theorem lost_exactly_once_witness:
  "cachedState sm_left \<noteq> None
   \<and> none_accepted [AdvReceived adv_L1_other_model 2, StateResetTimer_fired Left,
                     LostTimer_fired, StateResetTimer_fired Right, LostTimer_fired] sm_left
   \<and> fst (snd (run [AdvReceived adv_L1_other_model 2, StateResetTimer_fired Left,
                     LostTimer_fired, StateResetTimer_fired Right, LostTimer_fired] sm_left))
       = [LOG Warn Reason_model, LOG Warn This_adv_may_not_be_from_the_device_we_desire,
          LOG Info (DoStateReset_called Left), LOG Info Device_is_lost, DisconnectSafely]
   \<and> cachedState (snd (snd (run [AdvReceived adv_L1_other_model 2, StateResetTimer_fired Left,
                     LostTimer_fired, StateResetTimer_fired Right, LostTimer_fired] sm_left)))
       = None"
proof -
  have log: "IsPossibleDesiredAdv_log sm_left adv_L1_other_model = (False, [LOG Warn Reason_model])"
    by (simp add: IsPossibleDesiredAdv_log_def address_changed_block_def Let_def sm_left_fields)
       (simp add: sample_defs decoder_defs Let_def)
  have step1: "OnAdvReceived adv_L1_other_model 2 sm_left
                 = (None, [LOG Warn Reason_model,
                           LOG Warn This_adv_may_not_be_from_the_device_we_desire], sm_left)"
    by (simp add: OnAdvReceived_def log)
  have n: "none_accepted [AdvReceived adv_L1_other_model 2, StateResetTimer_fired Left,
             LostTimer_fired, StateResetTimer_fired Right, LostTimer_fired] sm_left"
    by (simp add: IsPossibleDesiredAdv_def log)
  have fx: "fst (snd (run [AdvReceived adv_L1_other_model 2, StateResetTimer_fired Left,
                     LostTimer_fired, StateResetTimer_fired Right, LostTimer_fired] sm_left))
       = [LOG Warn Reason_model, LOG Warn This_adv_may_not_be_from_the_device_we_desire,
          LOG Info (DoStateReset_called Left), LOG Info Device_is_lost, DisconnectSafely]"
    using sm_left_fields(3)
    by (auto simp: step1 DoStateReset_def DoLost_def ResetAll_def sm_left_fields(1) Let_def)
  from lost_exactly_once [OF sm_left_fields(3) n] n fx sm_left_fields(3)
  show ?thesis by simp
qed

lemma no_entry: "(\<forall>a t. x \<noteq> Some (a, t)) = (x = None)"
  by (cases x) auto

lemma sm_fresh_left_fields:
  "adv sm_fresh_left = \<lparr> left = Some (adv_L2, 3), right = Some (adv_R2, 2) \<rparr>"
  "rssiMin sm_fresh_left = - 100"
  by (simp_all add: sample_defs decoder_defs machine_defs)

lemma sm_fresh_left_canonical:
  "cachedState sm_fresh_left
     = Some (merged \<lparr> left = (GetAdvState adv_L2, 3), right = (GetAdvState adv_R2, 2) \<rparr>)"
proof -
  have a: "IsPossibleDesiredAdv (after [AdvReceived adv_R2 2]) adv_L2"
    by (simp add: sample_defs decoder_defs machine_defs)
  have s: "side (GetAdvState adv_L2) = Left"
    by (simp add: sample_defs decoder_defs Let_def)
  have r: "adv (after [AdvReceived adv_R2 2]) = \<lparr> left = None, right = Some (adv_R2, 2) \<rparr>"
    by (simp add: sample_defs decoder_defs machine_defs)
  have eq: "sm_fresh_left = snd (snd (OnAdvReceived adv_L2 3 (after [AdvReceived adv_R2 2])))"
    by (simp add: sm_fresh_left_def after_def case_prod_beta Let_def)
  show ?thesis
    unfolding eq
    by (simp add: accepted_OnAdvReceived [OF a] UpdateState_snd cachedAdvState_def
          UpdateAdv_fields s r)
qed

text \<open>
  Claim C2, as stated: when a side's expiry timer fires with the other side still cached,
  only that side's cache is cleared, and one \<^verbatim>\<open>UpdateEvent\<close> fires if the state merged
  from the remaining cache differs from the canonical state. The first half holds. The
  firing produces no event and leaves the canonical state as it is: here the left cache,
  the later one, gave the left pod's battery 60; once it is cleared the remaining right
  cache would merge to 50, yet the step returns no event, logs one line and keeps the
  canonical state.
\<close>

theorem side_expiry_counterexample:
  "left (adv sm_fresh_left) \<noteq> None \<and> right (adv sm_fresh_left) \<noteq> None
   \<and> left (adv (snd (snd (StateManager_step (StateResetTimer_fired Left) sm_fresh_left)))) = None
   \<and> right (adv (snd (snd (StateManager_step (StateResetTimer_fired Left) sm_fresh_left))))
       = right (adv sm_fresh_left)
   \<and> Some (merged (cachedAdvState
               (snd (snd (StateManager_step (StateResetTimer_fired Left) sm_fresh_left)))))
       \<noteq> cachedState sm_fresh_left
   \<and> fst (StateManager_step (StateResetTimer_fired Left) sm_fresh_left) = None
   \<and> fst (snd (StateManager_step (StateResetTimer_fired Left) sm_fresh_left))
       = [LOG Info (DoStateReset_called Left)]
   \<and> cachedState (snd (snd (StateManager_step (StateResetTimer_fired Left) sm_fresh_left)))
       = cachedState sm_fresh_left"
proof -
  have s: "GetAdvState adv_L2 = scale_batteries (store_state (sample_protocol 0 1 6 5 15))"
    "GetAdvState adv_R2 = scale_batteries (store_state (sample_protocol 1 1 5 5 15))"
    by (simp_all add: GetAdvState_def adv_L2_def adv_R2_def sample_adv_def)
  have before: "PodState.battery (left (State.pods (merged \<lparr> left = (GetAdvState adv_L2, 3),
                  right = (GetAdvState adv_R2, 2) \<rparr>))) = Some 60"
    by (simp add: s merged_def PICK_SIDE_def sample_protocol_def sample_battery_def
          scale_batteries_def store_state_def times_10_def Available_def Let_def)
  have after: "PodState.battery (left (State.pods (merged \<lparr> left = (default_AdvState, 0),
                  right = (GetAdvState adv_R2, 2) \<rparr>))) = Some 50"
    by (simp add: s merged_def PICK_SIDE_def default_AdvState_def default_PodState_def
          default_CaseState_def sample_protocol_def sample_battery_def
          scale_batteries_def store_state_def times_10_def Available_def Let_def)
  have differ: "merged \<lparr> left = (default_AdvState, 0), right = (GetAdvState adv_R2, 2) \<rparr>
                  \<noteq> merged \<lparr> left = (GetAdvState adv_L2, 3), right = (GetAdvState adv_R2, 2) \<rparr>"
    using before after by auto
  show ?thesis
    using differ
    by (simp add: DoStateReset_def sm_fresh_left_fields sm_fresh_left_canonical cachedAdvState_def)
qed

text \<open>
  Claim C2, amended. When a side's expiry timer fires, only that side's cache is cleared:
  the other cache, the canonical state, the floor and the timers are as before, and the
  firing produces no \<^verbatim>\<open>UpdateEvent\<close>. The merged state is computed anew at the next
  accepted advertisement, which returns one \<^verbatim>\<open>UpdateEvent\<close>, from the canonical state
  of before the firing to the new merged state, if the two differ, and none if they are
  equal.
\<close>

theorem side_expiry:
  assumes "sm' = snd (snd (StateManager_step (StateResetTimer_fired s) sm))"
  shows "fst (StateManager_step (StateResetTimer_fired s) sm) = None
       \<and> adv sm' = (if s = Left then (adv sm)\<lparr> left := None \<rparr> else (adv sm)\<lparr> right := None \<rparr>)
       \<and> cachedState sm' = cachedState sm
       \<and> rssiMin sm' = rssiMin sm
       \<and> lostTimer sm' = lostTimer sm
       \<and> stateResetTimer sm' = stateResetTimer sm
       \<and> (\<forall>a now. IsPossibleDesiredAdv sm' a \<longrightarrow>
            fst (OnAdvReceived a now sm')
              = (if Some (merged (cachedAdvState (UpdateAdv a now sm'))) = cachedState sm then None
                 else Some \<lparr> oldState = cachedState sm,
                            newState = merged (cachedAdvState (UpdateAdv a now sm')) \<rparr>))"
proof -
  obtain l r where caches: "adv sm = \<lparr> left = l, right = r \<rparr>"
    by (cases "adv sm") simp
  have fields: "adv sm' = (if s = Left then (adv sm)\<lparr> left := None \<rparr> else (adv sm)\<lparr> right := None \<rparr>)"
    "cachedState sm' = cachedState sm" "rssiMin sm' = rssiMin sm"
    "lostTimer sm' = lostTimer sm" "stateResetTimer sm' = stateResetTimer sm"
    by (auto simp: assms DoStateReset_def caches no_entry)
  have "fst (OnAdvReceived a now sm')
          = (if Some (merged (cachedAdvState (UpdateAdv a now sm'))) = cachedState sm then None
             else Some \<lparr> oldState = cachedState sm,
                        newState = merged (cachedAdvState (UpdateAdv a now sm')) \<rparr>)"
    if "IsPossibleDesiredAdv sm' a" for a now
    by (simp add: accepted_OnAdvReceived [OF that] UpdateState_fst UpdateAdv_fields fields(2))
  with fields show ?thesis by simp
qed

text \<open>
  After the left expiry of the counterexample, the right bud's packet at time 4 is
  accepted and returns the event that takes the left pod's battery from 60 to 50.
\<close>

theorem side_expiry_witness:
  "fst (StateManager_step (StateResetTimer_fired Left) sm_fresh_left) = None
   \<and> adv (snd (snd (StateManager_step (StateResetTimer_fired Left) sm_fresh_left)))
       = \<lparr> left = None, right = Some (adv_R2, 2) \<rparr>
   \<and> cachedState (snd (snd (StateManager_step (StateResetTimer_fired Left) sm_fresh_left)))
       = cachedState sm_fresh_left
   \<and> IsPossibleDesiredAdv
       (snd (snd (StateManager_step (StateResetTimer_fired Left) sm_fresh_left))) adv_R2
   \<and> fst (OnAdvReceived adv_R2 4
            (snd (snd (StateManager_step (StateResetTimer_fired Left) sm_fresh_left))))
       = Some \<lparr> oldState = cachedState sm_fresh_left,
                newState = merged \<lparr> left = (default_AdvState, 0),
                                     right = (GetAdvState adv_R2, 4) \<rparr> \<rparr>"
proof -
  let ?sm' = "snd (snd (StateManager_step (StateResetTimer_fired Left) sm_fresh_left))"
  have f: "adv ?sm' = \<lparr> left = None, right = Some (adv_R2, 2) \<rparr>" "rssiMin ?sm' = - 100"
    by (simp_all add: DoStateReset_def sm_fresh_left_fields)
  have a: "IsPossibleDesiredAdv ?sm' adv_R2"
    by (simp add: IsPossibleDesiredAdv_def IsPossibleDesiredAdv_log_def Let_def f
          del: StateManager_step.simps)
       (simp add: sample_defs decoder_defs Let_def)
  have sd: "side (GetAdvState adv_R2) = Right"
    by (simp add: sample_defs decoder_defs Let_def)
  have c: "cachedAdvState (UpdateAdv adv_R2 4 ?sm')
             = \<lparr> left = (default_AdvState, 0), right = (GetAdvState adv_R2, 4) \<rparr>"
    by (simp add: cachedAdvState_def UpdateAdv_fields sd f del: StateManager_step.simps)
  have s: "GetAdvState adv_L2 = scale_batteries (store_state (sample_protocol 0 1 6 5 15))"
    "GetAdvState adv_R2 = scale_batteries (store_state (sample_protocol 1 1 5 5 15))"
    by (simp_all add: GetAdvState_def adv_L2_def adv_R2_def sample_adv_def)
  have before: "PodState.battery (left (State.pods (merged \<lparr> left = (GetAdvState adv_L2, 3),
                  right = (GetAdvState adv_R2, 2) \<rparr>))) = Some 60"
    by (simp add: s merged_def PICK_SIDE_def sample_protocol_def sample_battery_def
          scale_batteries_def store_state_def times_10_def Available_def Let_def)
  have after: "PodState.battery (left (State.pods (merged \<lparr> left = (default_AdvState, 0),
                  right = (GetAdvState adv_R2, 4) \<rparr>))) = Some 50"
    by (simp add: s merged_def PICK_SIDE_def default_AdvState_def default_PodState_def
          default_CaseState_def sample_protocol_def sample_battery_def
          scale_batteries_def store_state_def times_10_def Available_def Let_def)
  have differ: "Some (merged \<lparr> left = (default_AdvState, 0), right = (GetAdvState adv_R2, 4) \<rparr>)
                  \<noteq> cachedState sm_fresh_left"
    using before after by (auto simp: sm_fresh_left_canonical)
  from side_expiry [OF refl, of Left sm_fresh_left] a f differ
  show ?thesis
    by (simp add: c del: StateManager_step.simps)
qed


end
